theory Spec2Isabelle
  imports Main
begin

section \<open>Python strings\<close>

text \<open>
  Python \<open>str\<close> values are modelled as \<open>string\<close>, one \<open>char\<close> per code point, so the model
  covers the strings whose code points are below 256 (ASCII and Latin-1; a header value
  that \<open>requests\<close> returns is such a string). On these, \<open>str.isalnum\<close> and \<open>str.lower\<close> are
  the Unicode ones: 71 code points above 127 are alphanumeric, and the 30 upper-case
  letters among them have a lower-case form, 32 places further.
\<close>

definition ascii_uppercase :: string where
  "ascii_uppercase = ''ABCDEFGHIJKLMNOPQRSTUVWXYZ''"

definition ascii_lowercase :: string where
  "ascii_lowercase = ''abcdefghijklmnopqrstuvwxyz''"

definition digits :: string where
  "digits = ''0123456789''"

definition latin1_uppercase :: string where
  "latin1_uppercase =
    [CHR 0xC0, CHR 0xC1, CHR 0xC2, CHR 0xC3, CHR 0xC4, CHR 0xC5, CHR 0xC6, CHR 0xC7,
     CHR 0xC8, CHR 0xC9, CHR 0xCA, CHR 0xCB, CHR 0xCC, CHR 0xCD, CHR 0xCE, CHR 0xCF,
     CHR 0xD0, CHR 0xD1, CHR 0xD2, CHR 0xD3, CHR 0xD4, CHR 0xD5, CHR 0xD6, CHR 0xD8,
     CHR 0xD9, CHR 0xDA, CHR 0xDB, CHR 0xDC, CHR 0xDD, CHR 0xDE]"

definition latin1_lowercase :: string where
  "latin1_lowercase =
    [CHR 0xE0, CHR 0xE1, CHR 0xE2, CHR 0xE3, CHR 0xE4, CHR 0xE5, CHR 0xE6, CHR 0xE7,
     CHR 0xE8, CHR 0xE9, CHR 0xEA, CHR 0xEB, CHR 0xEC, CHR 0xED, CHR 0xEE, CHR 0xEF,
     CHR 0xF0, CHR 0xF1, CHR 0xF2, CHR 0xF3, CHR 0xF4, CHR 0xF5, CHR 0xF6, CHR 0xF8,
     CHR 0xF9, CHR 0xFA, CHR 0xFB, CHR 0xFC, CHR 0xFD, CHR 0xFE]"

text \<open>
  The other alphanumeric code points: the ordinal indicators, the superscripts 1 to 3,
  the micro sign, the three fractions, and the letters sharp s and y with diaeresis,
  which are lower-case letters without an upper-case form below 256.
\<close>

definition latin1_other_alnum :: string where
  "latin1_other_alnum =
    [CHR 0xAA, CHR 0xB2, CHR 0xB3, CHR 0xB5, CHR 0xB9, CHR 0xBA, CHR 0xBC, CHR 0xBD,
     CHR 0xBE, CHR 0xDF, CHR 0xFF]"

text \<open>\<open>c.isascii() and c.isalpha()\<close>, the test \<open>urlsplit\<close> makes on the first character.\<close>

definition ascii_isalpha :: "char \<Rightarrow> bool" where
  "ascii_isalpha c = (c \<in> set (ascii_lowercase @ ascii_uppercase))"

text \<open>The decimal digits: \<open>int\<close> accepts no other digit below 256.\<close>

definition isdigit :: "char \<Rightarrow> bool" where
  "isdigit c = (c \<in> set digits)"

text \<open>\<open>c.isalnum()\<close>.\<close>

definition isalnum :: "char \<Rightarrow> bool" where
  "isalnum c =
     (c \<in> set (ascii_lowercase @ ascii_uppercase @ digits @
                 latin1_uppercase @ latin1_lowercase @ latin1_other_alnum))"

text \<open>\<open>s.lower()\<close>.\<close>

definition lower_char :: "char \<Rightarrow> char" where
  "lower_char c =
     (case map_of (zip (ascii_uppercase @ latin1_uppercase)
                       (ascii_lowercase @ latin1_lowercase)) c of
        Some d \<Rightarrow> d
      | None \<Rightarrow> c)"

definition lower :: "string \<Rightarrow> string" where
  "lower s = map lower_char s"

text \<open>\<open>s.startswith(p)\<close>, \<open>s.endswith(p)\<close> and the substring test \<open>p in s\<close>.\<close>

definition startswith :: "string \<Rightarrow> string \<Rightarrow> bool" where
  "startswith s p = (take (length p) s = p)"

definition endswith :: "string \<Rightarrow> string \<Rightarrow> bool" where
  "endswith s p = (length p \<le> length s \<and> drop (length s - length p) s = p)"

fun contains :: "string \<Rightarrow> string \<Rightarrow> bool" where
  "contains [] p = (p = [])"
| "contains (c # cs) p = (startswith (c # cs) p \<or> contains cs p)"

declare contains.simps [simp del]

text \<open>\<open>s.split(c)\<close> for a one-character separator: the result is never empty.\<close>

fun split_on :: "char \<Rightarrow> string \<Rightarrow> string list" where
  "split_on c [] = [[]]"
| "split_on c (x # xs) =
     (if x = c then [] # split_on c xs
      else (case split_on c xs of [] \<Rightarrow> [[x]] | w # ws \<Rightarrow> (x # w) # ws))"

text \<open>\<open>sep.join(parts)\<close>.\<close>

fun join :: "string \<Rightarrow> string list \<Rightarrow> string" where
  "join sep [] = []"
| "join sep [w] = w"
| "join sep (w # ws) = w @ sep @ join sep ws"

text \<open>\<open>s.split(c, 1)\<close> when \<open>c\<close> occurs in \<open>s\<close>: the text before and after the first \<open>c\<close>.\<close>

definition before :: "char \<Rightarrow> string \<Rightarrow> string" where
  "before c s = takeWhile (\<lambda>x. x \<noteq> c) s"

definition after :: "char \<Rightarrow> string \<Rightarrow> string" where
  "after c s = drop (Suc (length (before c s))) s"

section \<open>The exceptions of the program\<close>

datatype exn = RequestException | ValueError | OSError | OverflowError | OtherException

section \<open>urllib.parse (CPython 3.11), as used by the crawler\<close>

text \<open>
  The crawler calls \<open>urlparse\<close>, \<open>urljoin\<close> and \<open>ParseResult.geturl\<close> of the standard
  library. They are modelled after CPython 3.11's \<open>urllib/parse.py\<close>, on \<open>str\<close> arguments.
  Two library checks are not computed here: \<open>ipaddress.ip_address\<close>, which validates a
  bracketed host, is the parameter \<open>ip6\<close> (true when the text is an IPv6 address), and
  the NFKC check of \<open>_checknetloc\<close> is left out: it never fails on a host whose code
  points are below 256 (none of them normalises to one of the characters it looks for).
\<close>

definition uses_relative :: "string list" where
  "uses_relative = ['''', ''ftp'', ''http'', ''gopher'', ''nntp'', ''imap'',
     ''wais'', ''file'', ''https'', ''shttp'', ''mms'',
     ''prospero'', ''rtsp'', ''rtsps'', ''rtspu'', ''sftp'',
     ''svn'', ''svn+ssh'', ''ws'', ''wss'']"

definition uses_netloc :: "string list" where
  "uses_netloc = ['''', ''ftp'', ''http'', ''gopher'', ''nntp'', ''telnet'',
     ''imap'', ''wais'', ''file'', ''mms'', ''https'', ''shttp'',
     ''snews'', ''prospero'', ''rtsp'', ''rtsps'', ''rtspu'', ''rsync'',
     ''svn'', ''svn+ssh'', ''sftp'', ''nfs'', ''git'', ''git+ssh'',
     ''ws'', ''wss'']"

definition uses_params :: "string list" where
  "uses_params = ['''', ''ftp'', ''hdl'', ''prospero'', ''http'', ''imap'',
     ''https'', ''shttp'', ''rtsp'', ''rtsps'', ''rtspu'', ''sip'',
     ''sips'', ''mms'', ''sftp'', ''tel'']"

definition scheme_chars :: string where
  "scheme_chars = ascii_lowercase @ ascii_uppercase @ digits @ ''+-.''"

text \<open>\<open>_WHATWG_C0_CONTROL_OR_SPACE\<close>: the code points 0 to 32.\<close>

definition c0_or_space :: "char \<Rightarrow> bool" where
  "c0_or_space c = ((of_char c :: nat) \<le> 32)"

definition lstrip_c0 :: "string \<Rightarrow> string" where
  "lstrip_c0 s = dropWhile c0_or_space s"

definition strip_c0 :: "string \<Rightarrow> string" where
  "strip_c0 s = rev (dropWhile c0_or_space (rev (dropWhile c0_or_space s)))"

text \<open>\<open>_UNSAFE_URL_BYTES_TO_REMOVE\<close>: tab, carriage return, line feed.\<close>

definition unsafe_byte :: "char \<Rightarrow> bool" where
  "unsafe_byte c = (c = CHR 0x09 \<or> c = CHR 0x0D \<or> c = CHR 0x0A)"

definition remove_unsafe :: "string \<Rightarrow> string" where
  "remove_unsafe s = filter (\<lambda>c. \<not> unsafe_byte c) s"

record split_result =
  scheme :: string
  netloc :: string
  path :: string
  query :: string
  fragment :: string

record parse_result = split_result +
  params :: string

text \<open>The scheme prefix of \<open>urlsplit\<close>: \<open>url[:i]\<close> up to the first colon, when it is a scheme.\<close>

definition split_scheme :: "string \<Rightarrow> string \<Rightarrow> string \<times> string" where
  "split_scheme dflt url =
     (let pre = before CHR '':'' url in
      if CHR '':'' \<in> set url \<and> pre \<noteq> [] \<and> ascii_isalpha (hd url)
         \<and> (\<forall>c \<in> set pre. c \<in> set scheme_chars)
      then (lower pre, after CHR '':'' url)
      else (dflt, url))"

text \<open>\<open>_splitnetloc(url, 2)\<close>: the text between \<open>//\<close> and the first of \<open>/?#\<close>, and the rest.\<close>

definition netloc_delim :: "char \<Rightarrow> bool" where
  "netloc_delim c = (c = CHR ''/'' \<or> c = CHR ''?'' \<or> c = CHR ''#'')"

definition splitnetloc :: "string \<Rightarrow> string \<times> string" where
  "splitnetloc url =
     (takeWhile (\<lambda>c. \<not> netloc_delim c) (drop 2 url),
      dropWhile (\<lambda>c. \<not> netloc_delim c) (drop 2 url))"

text \<open>
  \<open>_check_bracketed_host\<close>: an IPvFuture literal must match \<open>v[a-fA-F0-9]+\..+\<close>; anything
  else must be an IPv6 address. True when the check raises nothing.
\<close>

definition hexdigit :: "char \<Rightarrow> bool" where
  "hexdigit c = (c \<in> set ''abcdefABCDEF0123456789'')"

definition check_bracketed_host :: "(string \<Rightarrow> bool) \<Rightarrow> string \<Rightarrow> bool" where
  "check_bracketed_host ip6 hostname =
     (if startswith hostname ''v''
      then (let h = takeWhile hexdigit (tl hostname);
                r = dropWhile hexdigit (tl hostname)
            in h \<noteq> [] \<and> startswith r ''.'' \<and> tl r \<noteq> [] \<and> CHR 0x0A \<notin> set (tl r))
      else ip6 hostname)"

definition bracketed_host :: "string \<Rightarrow> string" where
  "bracketed_host nl = before CHR '']'' (after CHR ''['' nl)"

text \<open>
  The bracket checks of \<open>urlsplit\<close>; the source makes them inside the \<open>//\<close> branch, and
  outside it the host is empty and has no bracket. True when nothing is raised.
\<close>

definition netloc_brackets_ok :: "(string \<Rightarrow> bool) \<Rightarrow> string \<Rightarrow> bool" where
  "netloc_brackets_ok ip6 nl =
     (if (CHR ''['' \<in> set nl \<and> CHR '']'' \<notin> set nl) \<or> (CHR '']'' \<in> set nl \<and> CHR ''['' \<notin> set nl)
      then False
      else if CHR ''['' \<in> set nl \<and> CHR '']'' \<in> set nl
      then check_bracketed_host ip6 (bracketed_host nl)
      else True)"

definition urlsplit :: "(string \<Rightarrow> bool) \<Rightarrow> string \<Rightarrow> string \<Rightarrow> exn + split_result" where
  "urlsplit ip6 url0 scheme0 =
     (let url = remove_unsafe (lstrip_c0 url0);
          scheme1 = remove_unsafe (strip_c0 scheme0);
          (sch, url) = split_scheme scheme1 url;
          (nl, url) = (if take 2 url = ''//'' then splitnetloc url else ('''', url))
      in if \<not> netloc_brackets_ok ip6 nl then Inl ValueError
         else
           (let (url, frag) = (if CHR ''#'' \<in> set url
                               then (before CHR ''#'' url, after CHR ''#'' url) else (url, ''''));
                (url, qry) = (if CHR ''?'' \<in> set url
                              then (before CHR ''?'' url, after CHR ''?'' url) else (url, ''''))
            in Inr \<lparr>scheme = sch, netloc = nl, path = url, query = qry, fragment = frag\<rparr>))"

text \<open>
  \<open>_splitparams\<close>, called when the path has a semicolon: the parameters start at the first
  semicolon of the last path segment.
\<close>

definition rfind_slash :: "string \<Rightarrow> nat" where
  "rfind_slash url = length url - Suc (length (before CHR ''/'' (rev url)))"

definition splitparams :: "string \<Rightarrow> string \<times> string" where
  "splitparams url =
     (if CHR ''/'' \<in> set url
      then (let k = rfind_slash url in
            if CHR '';'' \<in> set (drop k url)
            then (let i = k + length (before CHR '';'' (drop k url))
                  in (take i url, drop (Suc i) url))
            else (url, ''''))
      else (before CHR '';'' url, after CHR '';'' url))"

definition urlparse :: "(string \<Rightarrow> bool) \<Rightarrow> string \<Rightarrow> string \<Rightarrow> exn + parse_result" where
  "urlparse ip6 url scheme0 =
     (case urlsplit ip6 url scheme0 of
        Inl e \<Rightarrow> Inl e
      | Inr r \<Rightarrow>
          (let (url, prm) = (if scheme r \<in> set uses_params \<and> CHR '';'' \<in> set (path r)
                             then splitparams (path r) else (path r, ''''))
           in Inr \<lparr>scheme = scheme r, netloc = netloc r, path = url, query = query r,
                   fragment = fragment r, params = prm\<rparr>))"

definition urlunsplit :: "split_result \<Rightarrow> string" where
  "urlunsplit r =
     (let url = path r;
          url = (if netloc r \<noteq> [] \<or> (scheme r \<noteq> [] \<and> scheme r \<in> set uses_netloc)
                    \<or> take 2 url = ''//''
                 then ''//'' @ netloc r
                      @ (if url \<noteq> [] \<and> take 1 url \<noteq> ''/'' then ''/'' @ url else url)
                 else url);
          url = (if scheme r \<noteq> [] then scheme r @ '':'' @ url else url);
          url = (if query r \<noteq> [] then url @ ''?'' @ query r else url);
          url = (if fragment r \<noteq> [] then url @ ''#'' @ fragment r else url)
      in url)"

definition urlunparse :: "parse_result \<Rightarrow> string" where
  "urlunparse p =
     urlunsplit \<lparr>scheme = scheme p, netloc = netloc p,
       path = (if params p \<noteq> [] then path p @ '';'' @ params p else path p),
       query = query p, fragment = fragment p\<rparr>"

text \<open>The path resolution of \<open>urljoin\<close>: dot segments are removed from \<open>segments\<close>.\<close>

fun resolve_segments :: "string list \<Rightarrow> string list \<Rightarrow> string list" where
  "resolve_segments resolved [] = resolved"
| "resolve_segments resolved (seg # segs) =
     (if seg = ''..'' then resolve_segments (butlast resolved) segs
      else if seg = ''.'' then resolve_segments resolved segs
      else resolve_segments (resolved @ [seg]) segs)"

text \<open>\<open>segments[1:-1] = filter(None, segments[1:-1])\<close>.\<close>

definition filter_inner :: "string list \<Rightarrow> string list" where
  "filter_inner segs =
     (if length segs < 2 then segs
      else hd segs # filter (\<lambda>w. w \<noteq> []) (butlast (tl segs)) @ [last segs])"

definition resolve_path :: "string \<Rightarrow> string \<Rightarrow> string" where
  "resolve_path bpath pth =
     (let base_parts = split_on CHR ''/'' bpath;
          base_parts = (if last base_parts \<noteq> [] then butlast base_parts else base_parts);
          segments = (if take 1 pth = ''/'' then split_on CHR ''/'' pth
                      else filter_inner (base_parts @ split_on CHR ''/'' pth));
          resolved_path = resolve_segments [] segments;
          resolved_path = (if last segments = ''.'' \<or> last segments = ''..''
                           then resolved_path @ [[]] else resolved_path);
          joined = join ''/'' resolved_path
      in if joined = [] then ''/'' else joined)"

text \<open>\<open>urljoin\<close> after both URLs are parsed: \<open>b\<close> is the base, \<open>p\<close> the reference \<open>url\<close>.\<close>

definition join_parsed :: "parse_result \<Rightarrow> parse_result \<Rightarrow> string \<Rightarrow> string" where
  "join_parsed b p url =
     (if scheme p \<noteq> scheme b \<or> scheme p \<notin> set uses_relative then url
      else if scheme p \<in> set uses_netloc \<and> netloc p \<noteq> [] then urlunparse p
      else
        (let nl = (if scheme p \<in> set uses_netloc then netloc b else netloc p) in
         if path p = [] \<and> params p = []
         then urlunparse (p\<lparr>netloc := nl, path := path b, params := params b,
                query := (if query p = [] then query b else query p)\<rparr>)
         else urlunparse (p\<lparr>netloc := nl, path := resolve_path (path b) (path p)\<rparr>)))"

definition urljoin :: "(string \<Rightarrow> bool) \<Rightarrow> string \<Rightarrow> string \<Rightarrow> exn + string" where
  "urljoin ip6 base url =
     (if base = [] then Inr url
      else if url = [] then Inr base
      else (case urlparse ip6 base '''' of
              Inl e \<Rightarrow> Inl e
            | Inr b \<Rightarrow>
                (case urlparse ip6 url (scheme b) of
                   Inl e \<Rightarrow> Inl e
                 | Inr p \<Rightarrow> Inr (join_parsed b p url))))"

text \<open>\<open>urlparse(url)._replace(fragment="").geturl()\<close>, line 167 of the crawler.\<close>

definition remove_fragment :: "(string \<Rightarrow> bool) \<Rightarrow> string \<Rightarrow> exn + string" where
  "remove_fragment ip6 url =
     (case urlparse ip6 url '''' of
        Inl e \<Rightarrow> Inl e
      | Inr p \<Rightarrow> Inr (urlunparse (p\<lparr>fragment := ''''\<rparr>)))"

section \<open>Other library functions the crawler calls\<close>

text \<open>
  \<open>int(s)\<close>: surrounding whitespace, a sign, decimal digits with single underscores
  between them, at most 4300 digits; anything else is a \<open>ValueError\<close>. The whitespace
  that \<open>int\<close> strips is the ASCII one, with the next-line and no-break-space characters
  (which it reads as spaces).
\<close>

definition int_space :: "char \<Rightarrow> bool" where
  "int_space c =
     (c \<in> set [CHR 0x09, CHR 0x0A, CHR 0x0B, CHR 0x0C, CHR 0x0D, CHR 0x20, CHR 0x85, CHR 0xA0])"

definition strip :: "string \<Rightarrow> string" where
  "strip s = rev (dropWhile int_space (rev (dropWhile int_space s)))"

definition digit_value :: "char \<Rightarrow> nat" where
  "digit_value c = length (before c digits)"

definition decimal_value :: "string \<Rightarrow> nat" where
  "decimal_value ds = foldl (\<lambda>a c. 10 * a + digit_value c) 0 ds"

definition py_int :: "string \<Rightarrow> exn + int" where
  "py_int s0 =
     (let s = strip s0;
          neg = startswith s ''-'';
          body = (if startswith s ''-'' \<or> startswith s ''+'' then tl s else s);
          groups = split_on CHR ''_'' body
      in if list_ex (\<lambda>g. g = [] \<or> \<not> list_all isdigit g) groups then Inl ValueError
         else if 4300 < length (concat groups) then Inl ValueError
         else Inr (if neg then - int (decimal_value (concat groups))
                   else int (decimal_value (concat groups))))"

text \<open>\<open>str(n)\<close> for a natural number, as an f-string prints it.\<close>

fun str_of_nat :: "nat \<Rightarrow> string" where
  "str_of_nat n =
     (if n < 10 then [digits ! n] else str_of_nat (n div 10) @ [digits ! (n mod 10)])"

declare str_of_nat.simps [simp del]

text \<open>\<open>os.path.basename\<close> and \<open>os.path.join\<close> of \<open>posixpath\<close>.\<close>

definition basename :: "string \<Rightarrow> string" where
  "basename p = rev (before CHR ''/'' (rev p))"

definition path_join :: "string \<Rightarrow> string \<Rightarrow> string" where
  "path_join a b =
     (if startswith b ''/'' then b
      else if a = [] \<or> endswith a ''/'' then a @ b
      else a @ ''/'' @ b)"

text \<open>
  \<open>round(content_length / 1024, 2)\<close>, in hundredths of a KB. The division of two
  integers gives the float nearest to the quotient: since 1024 is a power of two, that
  is the dividend rounded to 53 significant bits (ties to the even one) over 1024, and
  the dividend itself below \<open>2 ^ 53\<close>. The division raises \<open>OverflowError\<close> once the
  quotient is beyond the largest float. \<open>round\<close> then rounds the float to the nearest
  hundredth, ties to the even one, and returns the float nearest to that decimal; the
  model keeps the decimal, as a number of hundredths.
\<close>

definition round_half_even :: "int \<Rightarrow> int \<Rightarrow> int" where
  "round_half_even a b =
     (let q = a div b; r = a mod b in
      if 2 * r < b then q
      else if b < 2 * r then q + 1
      else if even q then q else q + 1)"

fun bit_length :: "nat \<Rightarrow> nat" where
  "bit_length n = (if n = 0 then 0 else Suc (bit_length (n div 2)))"

declare bit_length.simps [simp del]

definition round53 :: "int \<Rightarrow> int" where
  "round53 n =
     (if \<bar>n\<bar> < 2 ^ 53 then n
      else (let e = bit_length (nat \<bar>n\<bar>) - 53 in round_half_even n (2 ^ e) * 2 ^ e))"

definition float_overflow :: "int \<Rightarrow> bool" where
  "float_overflow n = (2 ^ 1034 - 2 ^ 980 \<le> \<bar>n\<bar>)"

definition file_size_kb :: "int \<Rightarrow> exn + int" where
  "file_size_kb content_length =
     (if float_overflow content_length then Inl OverflowError
      else Inr (round_half_even (round53 content_length * 100) 1024))"

section \<open>The environment: network, file system, clock\<close>

text \<open>
  A \<open>requests\<close> response, as far as the crawler reads it. The header dictionary is
  case-insensitive: it is a map keyed by the lower-cased header name. \<open>content\<close> is the
  body, \<open>None\<close> when reading it (\<open>response.content\<close>, \<open>iter_content\<close>) raises.
\<close>

record response =
  headers :: "string \<rightharpoonup> string"
  content :: "string option"

definition header :: "response \<Rightarrow> string \<Rightarrow> string option" where
  "header r name = headers r (lower name)"

text \<open>One \<open>requests.get\<close> followed by \<open>raise_for_status\<close>: a response or an exception.
  \<open>RequestException\<close> stands for the transport failures (timeout, connection error,
  HTTP error status).\<close>

datatype attempt = Returns response | Raises exn

text \<open>Writing a file: the \<open>open\<close> fails, a \<open>write\<close> fails after it, or all is written.\<close>

datatype io_outcome = OpenFails | WriteFails | Written

text \<open>
  The world outside the program. Its answers may change over time: they depend on the
  number of requests made so far (the field \<open>clock\<close> of the crawler below).
  \<open>find_hrefs\<close> is \<open>BeautifulSoup(html, 'html.parser').find_all('a', href=True)\<close>,
  giving the \<open>href\<close> value of each anchor in document order.
\<close>

record world =
  requests_get :: "nat \<Rightarrow> string \<Rightarrow> attempt"
  find_hrefs :: "string \<Rightarrow> string list"
  ip_address6 :: "string \<Rightarrow> bool"
  file_write :: "nat \<Rightarrow> string \<Rightarrow> io_outcome"
  time_time :: "nat \<Rightarrow> nat"
  strftime :: "nat \<Rightarrow> string"

text \<open>The sidecar. \<open>file_size_kb_x100\<close> is the value of \<open>file_size_kb\<close> in hundredths.\<close>

record metadata =
  source_authority :: string
  tier :: string
  download_url :: string
  file_name :: string
  crawl_date :: string
  file_size_kb_x100 :: int

datatype disk_file = Pdf string | Sidecar metadata | Partial

datatype level = INFO | WARNING | ERROR

text \<open>The log lines of the program, by format string and arguments.\<close>

datatype message =
    Starting_crawl
  | Visiting string
  | Attempt_failed nat nat string exn
  | Failed_to_fetch string nat
  | Skipping_small_PDF int string
  | Downloaded string int
  | Error_saving_PDF string exn
  | Skipping_content_type string
  | Error_processing string exn
  | Crawl_complete
  | Total_pages_visited nat
  | Total_pdfs_downloaded nat

datatype event =
    Get string
  | Sleep nat
  | Log level message
  | Progress nat nat int

section \<open>The crawler\<close>

text \<open>
  The fields of \<open>MoHFWCrawler\<close>, with the part of the world the program changes: the
  files on \<open>disk\<close>, the number of requests made (\<open>clock\<close>) and the \<open>trace\<close> of requests,
  sleeps and log lines. \<open>uncaught\<close> is the exception that has left \<open>crawl\<close>, if any.
\<close>

record crawler =
  visited :: "string set"
  queue :: "string list"
  pages_visited :: nat
  pdfs_downloaded :: nat
  total_size_bytes :: int
  disk :: "string \<rightharpoonup> disk_file"
  clock :: nat
  trace :: "event list"
  uncaught :: "exn option"

definition seed_url :: string where
  "seed_url = ''https://mohfw.gov.in''"

definition download_dir :: string where
  "download_dir = path_join (path_join ''data_dump'' ''General_Medicine'') ''MoHFW''"

definition pdf_min_size :: int where
  "pdf_min_size = 50 * 1024"

definition max_retries :: nat where
  "max_retries = 3"

text \<open>\<open>__init__\<close>, on a disk \<open>d\<close> where the download directory can be made.\<close>

definition init :: "(string \<rightharpoonup> disk_file) \<Rightarrow> crawler" where
  "init d = \<lparr>visited = {}, queue = [seed_url], pages_visited = 0, pdfs_downloaded = 0,
     total_size_bytes = 0, disk = d, clock = 0, trace = [], uncaught = None\<rparr>"

definition emit :: "event \<Rightarrow> crawler \<Rightarrow> crawler" where
  "emit e s = s\<lparr>trace := trace s @ [e]\<rparr>"

subsection \<open>is_valid_url\<close>

definition is_valid_url :: "world \<Rightarrow> crawler \<Rightarrow> string \<Rightarrow> exn + bool" where
  "is_valid_url w s url =
     (case urlparse (ip_address6 w) url '''' of
        Inl e \<Rightarrow> Inl e
      | Inr parsed \<Rightarrow> Inr (endswith (netloc parsed) ''mohfw.gov.in'' \<and> url \<notin> visited s))"

subsection \<open>get_response\<close>

text \<open>
  The loop \<open>for attempt in range(max_retries)\<close>, over the attempts still to make. Only
  \<open>requests.RequestException\<close> is caught; any other exception leaves the method.
\<close>

fun attempts :: "world \<Rightarrow> string \<Rightarrow> nat list \<Rightarrow> crawler \<Rightarrow> (exn + response option) \<times> crawler" where
  "attempts w url [] s = (Inr None, emit (Log ERROR (Failed_to_fetch url max_retries)) s)"
| "attempts w url (attempt # rest) s =
     (let s1 = (emit (Get url) s)\<lparr>clock := Suc (clock s)\<rparr> in
      case requests_get w (clock s) url of
        Returns r \<Rightarrow> (Inr (Some r), s1)
      | Raises e \<Rightarrow>
          if e = RequestException
          then attempts w url rest
                 (emit (Sleep 2)
                   (emit (Log WARNING (Attempt_failed (attempt + 1) max_retries url e)) s1))
          else (Inl e, s1))"

definition get_response :: "world \<Rightarrow> string \<Rightarrow> crawler \<Rightarrow> (exn + response option) \<times> crawler" where
  "get_response w url s = attempts w url [0..<max_retries] s"

subsection \<open>save_pdf\<close>

text \<open>Lines 70 to 78: the file name, from the path of the URL and \<open>int(time.time())\<close>.\<close>

definition filename_char :: "char \<Rightarrow> bool" where
  "filename_char c = (isalnum c \<or> c \<in> set [CHR '' '', CHR ''.'', CHR ''_'', CHR ''-''])"

definition derive_filename :: "nat \<Rightarrow> string \<Rightarrow> string" where
  "derive_filename now pth =
     (let filename = basename pth;
          filename = (if filename = [] \<or> endswith filename ''/''
                      then ''document_'' @ str_of_nat now @ ''.pdf'' else filename);
          filename = (if \<not> endswith (lower filename) ''.pdf''
                      then filename @ ''.pdf'' else filename)
      in filter filename_char filename)"

text \<open>
  Lines 83 to 85: the file is opened for writing and the body is streamed into it. A
  failure after the \<open>open\<close> (of a write, or of the stream) leaves an incomplete file.
\<close>

definition write_pdf :: "world \<Rightarrow> response \<Rightarrow> string \<Rightarrow> crawler \<Rightarrow> exn option \<times> crawler" where
  "write_pdf w response file_path s =
     (case file_write w (clock s) file_path of
        OpenFails \<Rightarrow> (Some OSError, s)
      | WriteFails \<Rightarrow> (Some OSError, s\<lparr>disk := (disk s)(file_path \<mapsto> Partial)\<rparr>)
      | Written \<Rightarrow>
          (case content response of
             None \<Rightarrow> (Some RequestException, s\<lparr>disk := (disk s)(file_path \<mapsto> Partial)\<rparr>)
           | Some bytes \<Rightarrow> (None, s\<lparr>disk := (disk s)(file_path \<mapsto> Pdf bytes)\<rparr>)))"

text \<open>Lines 101 and 102: the sidecar.\<close>

definition write_json :: "world \<Rightarrow> string \<Rightarrow> metadata \<Rightarrow> crawler \<Rightarrow> exn option \<times> crawler" where
  "write_json w json_path md s =
     (case file_write w (clock s) json_path of
        OpenFails \<Rightarrow> (Some OSError, s)
      | WriteFails \<Rightarrow> (Some OSError, s\<lparr>disk := (disk s)(json_path \<mapsto> Partial)\<rparr>)
      | Written \<Rightarrow> (None, s\<lparr>disk := (disk s)(json_path \<mapsto> Sidecar md)\<rparr>))"

text \<open>\<open>int(response.headers.get('content-length', 0))\<close>.\<close>

definition declared_length :: "response \<Rightarrow> exn + int" where
  "declared_length response =
     (case header response ''content-length'' of None \<Rightarrow> Inr 0 | Some v \<Rightarrow> py_int v)"

text \<open>
  The \<open>try\<close> block of \<open>save_pdf\<close>: the exception raised, if any, and the state reached
  when it was raised (Python does not undo the assignments made before).
\<close>

definition save_pdf_try :: "world \<Rightarrow> string \<Rightarrow> response \<Rightarrow> crawler \<Rightarrow> exn option \<times> crawler" where
  "save_pdf_try w url response s =
     (case declared_length response of
        Inl e \<Rightarrow> (Some e, s)
      | Inr content_length \<Rightarrow>
          if content_length < pdf_min_size
          then (None, emit (Log INFO (Skipping_small_PDF content_length url)) s)
          else
            (case urlparse (ip_address6 w) url '''' of
               Inl e \<Rightarrow> (Some e, s)
             | Inr parsed \<Rightarrow>
                 (let filename = derive_filename (time_time w (clock s)) (path parsed);
                      file_path = path_join download_dir filename
                  in case write_pdf w response file_path s of
                       (Some e, s1) \<Rightarrow> (Some e, s1)
                     | (None, s1) \<Rightarrow>
                         (let s2 = s1\<lparr>pdfs_downloaded := pdfs_downloaded s1 + 1,
                                      total_size_bytes := total_size_bytes s1 + content_length\<rparr>
                          in case file_size_kb content_length of
                               Inl e \<Rightarrow> (Some e, s2)
                             | Inr kb \<Rightarrow>
                                 (let md = \<lparr>source_authority = ''MoHFW'', tier = ''Tier1'',
                                             download_url = url, file_name = filename,
                                             crawl_date = strftime w (clock s),
                                             file_size_kb_x100 = kb\<rparr>;
                                      json_path = file_path @ ''.json''
                                  in case write_json w json_path md s2 of
                                       (Some e, s3) \<Rightarrow> (Some e, s3)
                                     | (None, s3) \<Rightarrow>
                                         (None, emit (Log INFO (Downloaded filename kb)) s3))))))"

text \<open>\<open>except Exception as e\<close>: the error is logged and \<open>save_pdf\<close> returns.\<close>

definition save_pdf :: "world \<Rightarrow> string \<Rightarrow> response \<Rightarrow> crawler \<Rightarrow> crawler" where
  "save_pdf w url response s =
     (case save_pdf_try w url response s of
        (None, s') \<Rightarrow> s'
      | (Some e, s') \<Rightarrow> emit (Log ERROR (Error_saving_PDF url e)) s')"

subsection \<open>crawl\<close>

text \<open>Lines 169 to 171: the link is appended when it is valid, not visited and not queued.\<close>

definition enqueue :: "world \<Rightarrow> string \<Rightarrow> crawler \<Rightarrow> exn + crawler" where
  "enqueue w full_url s =
     (case is_valid_url w s full_url of
        Inl e \<Rightarrow> Inl e
      | Inr valid \<Rightarrow>
          Inr (if valid \<and> full_url \<notin> visited s \<and> full_url \<notin> set (queue s)
               then s\<lparr>queue := queue s @ [full_url]\<rparr> else s))"

text \<open>Lines 164 and 167: the link is resolved against the page and its fragment removed.\<close>

definition normalize :: "world \<Rightarrow> string \<Rightarrow> string \<Rightarrow> exn + string" where
  "normalize w url href =
     (case urljoin (ip_address6 w) url href of
        Inl e \<Rightarrow> Inl e
      | Inr full_url \<Rightarrow> remove_fragment (ip_address6 w) full_url)"

text \<open>
  The loop over the anchors of a page, lines 162 to 171. An exception stops the loop and
  leaves the links already appended in the queue.
\<close>

fun process_links :: "world \<Rightarrow> string \<Rightarrow> string list \<Rightarrow> crawler \<Rightarrow> exn option \<times> crawler" where
  "process_links w url [] s = (None, s)"
| "process_links w url (href # hrefs) s =
     (case normalize w url href of
        Inl e \<Rightarrow> (Some e, s)
      | Inr full_url \<Rightarrow>
          (case enqueue w full_url s of
             Inl e \<Rightarrow> (Some e, s)
           | Inr s' \<Rightarrow> process_links w url hrefs s'))"

text \<open>Lines 146 to 150 and 172: what is done with a response.\<close>

datatype kind = PDF | HTML | Other

definition content_type_of :: "response \<Rightarrow> string" where
  "content_type_of response =
     lower (case header response ''Content-Type'' of None \<Rightarrow> '''' | Some v \<Rightarrow> v)"

definition classify :: "string \<Rightarrow> response \<Rightarrow> kind" where
  "classify url response =
     (if contains (content_type_of response) ''application/pdf'' \<or> endswith (lower url) ''.pdf''
      then PDF
      else if contains (content_type_of response) ''text/html'' then HTML
      else Other)"

text \<open>
  The \<open>try\<close> block of the loop body, lines 142 to 173: it ends normally, by \<open>continue\<close>,
  or by an exception.
\<close>

datatype flow = Done | Continue | Raised exn

definition visit :: "world \<Rightarrow> string \<Rightarrow> crawler \<Rightarrow> flow \<times> crawler" where
  "visit w url s =
     (case get_response w url s of
        (Inl e, s1) \<Rightarrow> (Raised e, s1)
      | (Inr None, s1) \<Rightarrow> (Continue, s1)
      | (Inr (Some response), s1) \<Rightarrow>
          (case classify url response of
             PDF \<Rightarrow> (Done, save_pdf w url response s1)
           | HTML \<Rightarrow>
               (case content response of
                  None \<Rightarrow> (Continue, s1)
                | Some html_content \<Rightarrow>
                    (case process_links w url (find_hrefs w html_content) s1 of
                       (Some e, s2) \<Rightarrow> (Raised e, s2)
                     | (None, s2) \<Rightarrow> (Done, s2)))
           | Other \<Rightarrow>
               (Done, emit (Log INFO (Skipping_content_type (content_type_of response))) s1)))"

text \<open>
  Line 179, the progress report. It is outside the \<open>try\<close>: the division of
  \<open>total_size_bytes\<close>, which gives a float, raises \<open>OverflowError\<close> when the total is
  beyond the largest float, and the exception leaves \<open>crawl\<close>.
\<close>

definition progress :: "crawler \<Rightarrow> crawler" where
  "progress s =
     (if float_overflow (total_size_bytes s) then s\<lparr>uncaught := Some OverflowError\<rparr>
      else emit (Progress (pages_visited s) (pdfs_downloaded s) (total_size_bytes s)) s)"

text \<open>One iteration of \<open>while self.queue\<close>, lines 113 to 179; the queue is not empty.\<close>

definition crawl_iter :: "world \<Rightarrow> crawler \<Rightarrow> crawler" where
  "crawl_iter w s =
     (case queue s of
        [] \<Rightarrow> s
      | url # rest \<Rightarrow>
          (let s0 = s\<lparr>queue := rest\<rparr> in
           if url \<in> visited s0 then s0
           else
             (let s1 = emit (Sleep 1)
                         ((emit (Log INFO (Visiting url)) s0)
                            \<lparr>visited := insert url (visited s0),
                             pages_visited := pages_visited s0 + 1\<rparr>)
              in case visit w url s1 of
                   (Continue, s2) \<Rightarrow> s2
                 | (Done, s2) \<Rightarrow> progress s2
                 | (Raised e, s2) \<Rightarrow> progress (emit (Log ERROR (Error_processing url e)) s2))))"

text \<open>
  The loop. It ends when the queue is empty or when an exception has left the body. It
  need not end: \<open>None\<close> is a crawl that goes on forever.
\<close>

partial_function (option) crawl_loop :: "world \<Rightarrow> crawler \<Rightarrow> crawler option" where
  "crawl_loop w s =
     (if queue s = [] then Some s
      else if uncaught s = None then crawl_loop w (crawl_iter w s)
      else Some s)"

text \<open>\<open>crawl\<close>: the three closing log lines are written when the loop ended normally.\<close>

definition crawl :: "world \<Rightarrow> crawler \<Rightarrow> crawler option" where
  "crawl w s =
     (case crawl_loop w (emit (Log INFO Starting_crawl) s) of
        None \<Rightarrow> None
      | Some s' \<Rightarrow>
          Some (if uncaught s' = None
                then emit (Log INFO (Total_pdfs_downloaded (pdfs_downloaded s')))
                       (emit (Log INFO (Total_pages_visited (pages_visited s')))
                         (emit (Log INFO Crawl_complete) s'))
                else s'))"

text \<open>The state after \<open>n\<close> iterations of the loop (fewer when the loop ends before).\<close>

fun crawl_steps :: "world \<Rightarrow> nat \<Rightarrow> crawler \<Rightarrow> crawler" where
  "crawl_steps w 0 s = s"
| "crawl_steps w (Suc n) s =
     (if queue s = [] then s
      else if uncaught s = None then crawl_steps w n (crawl_iter w s)
      else s)"

section \<open>Concrete worlds and responses\<close>


text \<open>A PDF response declaring the given length, and an HTML page.\<close>

definition pdf_response :: "string \<Rightarrow> response" where
  "pdf_response len =
     \<lparr>headers = [''content-type'' \<mapsto> ''application/pdf'', ''content-length'' \<mapsto> len],
      content = Some ''%PDF-1.4''\<rparr>"

definition html_response :: "string \<Rightarrow> response" where
  "html_response html =
     \<lparr>headers = [''content-type'' \<mapsto> ''text/html; charset=utf-8''], content = Some html\<rparr>"

text \<open>
  The site of the end-to-end scenario: the seed page links to \<open>/report.pdf\<close> (100000
  bytes declared), to \<open>/tiny.pdf\<close> (1000 bytes declared) and to another domain.
\<close>

definition site :: world where
  "site = \<lparr>requests_get = (\<lambda>n url.
        if url = seed_url then Returns (html_response ''index'')
        else if url = ''https://mohfw.gov.in/report.pdf'' then Returns (pdf_response ''100000'')
        else if url = ''https://mohfw.gov.in/tiny.pdf'' then Returns (pdf_response ''1000'')
        else Raises RequestException),
     find_hrefs = (\<lambda>html. if html = ''index''
        then [''/report.pdf'', ''/tiny.pdf'', ''https://evil.example.com/x''] else []),
     ip_address6 = (\<lambda>h. False), file_write = (\<lambda>n p. Written),
     time_time = (\<lambda>n. 1700000000), strftime = (\<lambda>n. ''2026-11-03'')\<rparr>"

text \<open>A world like \<open>site\<close> where no \<open>.json\<close> file can be opened for writing.\<close>

definition sidecar_fails :: world where
  "sidecar_fails = site\<lparr>file_write := (\<lambda>n p. if endswith p ''.json'' then OpenFails else Written)\<rparr>"

text \<open>A world like \<open>site\<close> where every write fails after the file was opened.\<close>

definition disk_full :: world where
  "disk_full = site\<lparr>file_write := (\<lambda>n p. WriteFails)\<rparr>"

text \<open>
  A world where a URL ending in \<open>.pdf\<close> serves an HTML page, a URL without that suffix
  serves a PDF, and others serve an image and a page without links.
\<close>

definition png_response :: response where
  "png_response = \<lparr>headers = [''content-type'' \<mapsto> ''image/png''], content = Some ''PNG''\<rparr>"

definition mixed :: world where
  "mixed = site\<lparr>requests_get := (\<lambda>n url.
        if url = ''https://mohfw.gov.in/page.pdf'' then Returns (html_response ''index'')
        else if url = ''https://mohfw.gov.in/download'' then Returns (pdf_response ''60000'')
        else if url = ''https://mohfw.gov.in/logo.png'' then Returns png_response
        else if url = ''https://mohfw.gov.in/about'' then Returns (html_response ''about'')
        else Raises RequestException)\<rparr>"

text \<open>A declared length of \<open>10 ^ 320\<close> bytes: the digit 1 and 320 zeros.\<close>

definition huge_length :: string where
  "huge_length =
     ''1'' @ ''00000000000000000000000000000000000000000000000000000000000000000000000000000000'' @
     ''00000000000000000000000000000000000000000000000000000000000000000000000000000000'' @
     ''00000000000000000000000000000000000000000000000000000000000000000000000000000000'' @
     ''00000000000000000000000000000000000000000000000000000000000000000000000000000000''"

text \<open>
  A world where the seed URL serves a PDF that declares \<open>10 ^ 320\<close> bytes, and the state
  in which the crawl of that world ends.
\<close>

definition huge_site :: world where
  "huge_site = site\<lparr>requests_get := (\<lambda>n url. Returns (pdf_response huge_length)),
     time_time := (\<lambda>n. 7)\<rparr>"

definition huge_site_end :: crawler where
  "huge_site_end =
     \<lparr>visited = {''https://mohfw.gov.in''}, queue = [],
      pages_visited = 1, pdfs_downloaded = 1, total_size_bytes = 10 ^ 320,
      disk = [''data_dump/General_Medicine/MoHFW/document_7.pdf'' \<mapsto> Pdf ''%PDF-1.4''],
      clock = 1,
      trace = [Log INFO Starting_crawl, Log INFO (Visiting ''https://mohfw.gov.in''), Sleep 1,
               Get ''https://mohfw.gov.in'',
               Log ERROR (Error_saving_PDF ''https://mohfw.gov.in'' OverflowError)],
      uncaught = Some OverflowError\<rparr>"

text \<open>
  A path whose last segment has two letters e with acute accent (code point 233), and
  the file name derived from it.
\<close>

definition accents_path :: string where
  "accents_path = ''/docs/r'' @ [CHR 0xE9] @ ''sum'' @ [CHR 0xE9] @ ''.pdf''"

definition accents_name :: string where
  "accents_name = ''r'' @ [CHR 0xE9] @ ''sum'' @ [CHR 0xE9] @ ''.pdf''"

section \<open>Properties named by the specification\<close>

text \<open>In the specification's words: the host is the target domain or a subdomain of it.\<close>

definition host_in_domain :: "string \<Rightarrow> bool" where
  "host_in_domain host = (host = ''mohfw.gov.in'' \<or> endswith host ''.mohfw.gov.in'')"

text \<open>The frontier invariant: no URL is queued twice, and no queued URL is visited.\<close>

definition frontier_inv :: "crawler \<Rightarrow> bool" where
  "frontier_inv s = (distinct (queue s) \<and> set (queue s) \<inter> visited s = {})"

text \<open>
  The states of the crawl of \<open>site\<close> before and after each of its three iterations,
  started with the trace \<open>t\<close>.
\<close>

definition report_sidecar :: metadata where
  "report_sidecar =
     \<lparr>source_authority = ''MoHFW'', tier = ''Tier1'',
      download_url = ''https://mohfw.gov.in/report.pdf'', file_name = ''report.pdf'',
      crawl_date = ''2026-11-03'', file_size_kb_x100 = 9766\<rparr>"

definition site_start :: "event list \<Rightarrow> crawler" where
  "site_start t = (init Map.empty)\<lparr>trace := t\<rparr>"

definition site_after_seed :: "event list \<Rightarrow> crawler" where
  "site_after_seed t =
     \<lparr>visited = {''https://mohfw.gov.in''},
      queue = [''https://mohfw.gov.in/report.pdf'', ''https://mohfw.gov.in/tiny.pdf''],
      pages_visited = 1, pdfs_downloaded = 0, total_size_bytes = 0, disk = Map.empty,
      clock = 1,
      trace = t @ [Log INFO (Visiting ''https://mohfw.gov.in''), Sleep 1,
               Get ''https://mohfw.gov.in'', Progress 1 0 0],
      uncaught = None\<rparr>"

definition site_after_report :: "event list \<Rightarrow> crawler" where
  "site_after_report t =
     \<lparr>visited = {''https://mohfw.gov.in/report.pdf'', ''https://mohfw.gov.in''},
      queue = [''https://mohfw.gov.in/tiny.pdf''],
      pages_visited = 2, pdfs_downloaded = 1, total_size_bytes = 100000,
      disk = [''data_dump/General_Medicine/MoHFW/report.pdf'' \<mapsto> Pdf ''%PDF-1.4'',
              ''data_dump/General_Medicine/MoHFW/report.pdf.json'' \<mapsto> Sidecar report_sidecar],
      clock = 2,
      trace = trace (site_after_seed t) @
              [Log INFO (Visiting ''https://mohfw.gov.in/report.pdf''), Sleep 1,
               Get ''https://mohfw.gov.in/report.pdf'',
               Log INFO (Downloaded ''report.pdf'' 9766), Progress 2 1 100000],
      uncaught = None\<rparr>"

definition site_after_tiny :: "event list \<Rightarrow> crawler" where
  "site_after_tiny t =
     \<lparr>visited = {''https://mohfw.gov.in/tiny.pdf'', ''https://mohfw.gov.in/report.pdf'',
                 ''https://mohfw.gov.in''},
      queue = [],
      pages_visited = 3, pdfs_downloaded = 1, total_size_bytes = 100000,
      disk = [''data_dump/General_Medicine/MoHFW/report.pdf'' \<mapsto> Pdf ''%PDF-1.4'',
              ''data_dump/General_Medicine/MoHFW/report.pdf.json'' \<mapsto> Sidecar report_sidecar],
      clock = 3,
      trace = trace (site_after_report t) @
              [Log INFO (Visiting ''https://mohfw.gov.in/tiny.pdf''), Sleep 1,
               Get ''https://mohfw.gov.in/tiny.pdf'',
               Log INFO (Skipping_small_PDF 1000 ''https://mohfw.gov.in/tiny.pdf''),
               Progress 3 1 100000],
      uncaught = None\<rparr>"

section \<open>get_response: the retry bound\<close>

lemma range_max_retries: "[0..<max_retries] = [0, 1, 2]"
  by (simp add: max_retries_def upt_rec)




section \<open>save_pdf: the size filter and the archive\<close>

lemmas py_int_eval = py_int_def strip_def int_space_def startswith_def isdigit_def digits_def
  decimal_value_def digit_value_def before_def

lemma py_int_1000: "py_int ''1000'' = Inr 1000"
  by (simp add: py_int_eval)

lemma py_int_20000: "py_int ''20000'' = Inr 20000"
  by (simp add: py_int_eval)

lemma py_int_60000: "py_int ''60000'' = Inr 60000"
  by (simp add: py_int_eval)

lemma py_int_100000: "py_int ''100000'' = Inr 100000"
  by (simp add: py_int_eval)

lemma lower_header_names:
  "lower ''content-length'' = ''content-length''" "lower ''Content-Type'' = ''content-type''"
  by code_simp+

lemma header_content_length: "header r ''content-length'' = headers r ''content-length''"
  by (simp add: header_def lower_header_names)

lemma header_content_type: "header r ''Content-Type'' = headers r ''content-type''"
  by (simp add: header_def lower_header_names)

lemma download_dir_eq: "download_dir = ''data_dump/General_Medicine/MoHFW''"
  by (simp add: download_dir_def path_join_def startswith_def endswith_def)

text \<open>A PDF below the minimum size: one log line, nothing else.\<close>

lemma save_pdf_small:
  assumes "declared_length r = Inr n" and "n < pdf_min_size"
  shows "save_pdf w url r s = emit (Log INFO (Skipping_small_PDF n url)) s"
  using assms by (simp add: save_pdf_def save_pdf_try_def)

text \<open>The division by 1024 is exact below \<open>2 ^ 53\<close> bytes, and possible up to the largest float.\<close>

lemma round53_exact: "0 \<le> n \<Longrightarrow> n < 2 ^ 53 \<Longrightarrow> round53 n = n"
  by (simp add: round53_def)

lemma float_overflow_iff: "0 \<le> n \<Longrightarrow> float_overflow n \<longleftrightarrow> 2 ^ 1034 - 2 ^ 980 \<le> n"
  by (simp add: float_overflow_def)

lemma pdf_min_size_nonneg: "pdf_min_size \<le> n \<Longrightarrow> 0 \<le> n"
  by (simp add: pdf_min_size_def)

text \<open>A PDF of at least the minimum size, when nothing fails.\<close>

lemma save_pdf_archived:
  assumes len: "declared_length r = Inr n" and big: "pdf_min_size \<le> n"
    and fl: "\<not> float_overflow n"
    and url: "urlparse (ip_address6 w) url '''' = Inr p"
    and body: "content r = Some bytes"
    and fp: "fp = path_join download_dir (derive_filename (time_time w (clock s)) (path p))"
    and w1: "file_write w (clock s) fp = Written"
    and w2: "file_write w (clock s) (fp @ ''.json'') = Written"
  shows "save_pdf w url r s =
     emit (Log INFO (Downloaded (derive_filename (time_time w (clock s)) (path p))
                       (round_half_even (round53 n * 100) 1024)))
       (s\<lparr>pdfs_downloaded := pdfs_downloaded s + 1,
          total_size_bytes := total_size_bytes s + n,
          disk := (disk s)
            (fp \<mapsto> Pdf bytes,
             fp @ ''.json'' \<mapsto> Sidecar
               \<lparr>source_authority = ''MoHFW'', tier = ''Tier1'', download_url = url,
                file_name = derive_filename (time_time w (clock s)) (path p),
                crawl_date = strftime w (clock s),
                file_size_kb_x100 = round_half_even (round53 n * 100) 1024\<rparr>)\<rparr>)"
proof -
  have kb: "file_size_kb n = Inr (round_half_even (round53 n * 100) 1024)"
    using fl by (simp add: file_size_kb_def)
  have wp: "write_pdf w r fp s = (None, s\<lparr>disk := (disk s)(fp \<mapsto> Pdf bytes)\<rparr>)"
    by (simp add: write_pdf_def w1 body)
  have nb: "\<not> n < pdf_min_size"
    using big by simp
  show ?thesis
    unfolding save_pdf_def save_pdf_try_def
    by (simp add: len nb url Let_def fp[symmetric] wp kb write_json_def w2 emit_def)
qed

text \<open>
  Claim C7. A PDF whose declared length is below 51200 bytes is skipped: \<open>save_pdf\<close>
  adds a log line and changes nothing else (no file, no counter). A declared length of
  20000 is skipped in this way; a declared length of 60000 is archived when the URL
  parses and the two writes succeed: the PDF and its sidecar are on disk and the
  counters have grown by 1 and by 60000.
\<close>

theorem save_pdf_size_filter:
  "(declared_length r = Inr n \<and> n < 51200 \<longrightarrow>
      save_pdf w url r s = emit (Log INFO (Skipping_small_PDF n url)) s) \<and>
   (header r ''content-length'' = Some ''20000'' \<longrightarrow>
      save_pdf w url r s = emit (Log INFO (Skipping_small_PDF 20000 url)) s) \<and>
   (header r ''content-length'' = Some ''60000'' \<and> content r = Some bytes \<and>
    urlparse (ip_address6 w) url '''' = Inr p \<and>
    fp = path_join download_dir (derive_filename (time_time w (clock s)) (path p)) \<and>
    file_write w (clock s) fp = Written \<and>
    file_write w (clock s) (fp @ ''.json'') = Written \<longrightarrow>
      save_pdf w url r s =
        emit (Log INFO (Downloaded (derive_filename (time_time w (clock s)) (path p)) 5859))
          (s\<lparr>pdfs_downloaded := pdfs_downloaded s + 1,
             total_size_bytes := total_size_bytes s + 60000,
             disk := (disk s)
               (fp \<mapsto> Pdf bytes,
                fp @ ''.json'' \<mapsto> Sidecar
                  \<lparr>source_authority = ''MoHFW'', tier = ''Tier1'', download_url = url,
                   file_name = derive_filename (time_time w (clock s)) (path p),
                   crawl_date = strftime w (clock s),
                   file_size_kb_x100 = 5859\<rparr>)\<rparr>))"
proof (intro conjI impI)
  assume "declared_length r = Inr n \<and> n < 51200"
  then show "save_pdf w url r s = emit (Log INFO (Skipping_small_PDF n url)) s"
    using save_pdf_small[of r n w url s] by (simp add: pdf_min_size_def)
next
  assume "header r ''content-length'' = Some ''20000''"
  then have "declared_length r = Inr 20000"
    by (simp add: declared_length_def py_int_20000)
  then show "save_pdf w url r s = emit (Log INFO (Skipping_small_PDF 20000 url)) s"
    using save_pdf_small[of r 20000 w url s] by (simp add: pdf_min_size_def)
next
  assume a: "header r ''content-length'' = Some ''60000'' \<and> content r = Some bytes \<and>
    urlparse (ip_address6 w) url '''' = Inr p \<and>
    fp = path_join download_dir (derive_filename (time_time w (clock s)) (path p)) \<and>
    file_write w (clock s) fp = Written \<and>
    file_write w (clock s) (fp @ ''.json'') = Written"
  then have len: "declared_length r = Inr 60000"
    by (simp add: declared_length_def py_int_60000)
  have big: "pdf_min_size \<le> 60000"
    by (simp add: pdf_min_size_def)
  have fl: "\<not> float_overflow 60000"
    by (simp add: float_overflow_def)
  have kb: "round_half_even (round53 60000 * 100) 1024 = 5859"
    by (simp add: round53_def round_half_even_def)
  from a have url: "urlparse (ip_address6 w) url '''' = Inr p"
    by blast
  from a have body: "content r = Some bytes"
    by blast
  from a have fp: "fp = path_join download_dir (derive_filename (time_time w (clock s)) (path p))"
    by blast
  from a have w1: "file_write w (clock s) fp = Written"
    by blast
  from a have w2: "file_write w (clock s) (fp @ ''.json'') = Written"
    by blast
  show "save_pdf w url r s =
        emit (Log INFO (Downloaded (derive_filename (time_time w (clock s)) (path p)) 5859))
          (s\<lparr>pdfs_downloaded := pdfs_downloaded s + 1,
             total_size_bytes := total_size_bytes s + 60000,
             disk := (disk s)
               (fp \<mapsto> Pdf bytes,
                fp @ ''.json'' \<mapsto> Sidecar
                  \<lparr>source_authority = ''MoHFW'', tier = ''Tier1'', download_url = url,
                   file_name = derive_filename (time_time w (clock s)) (path p),
                   crawl_date = strftime w (clock s),
                   file_size_kb_x100 = 5859\<rparr>)\<rparr>)"
    using save_pdf_archived[OF len big fl url body fp w1 w2] by (simp only: kb)
qed

lemma site_fields:
  "ip_address6 site = (\<lambda>h. False)" "file_write site = (\<lambda>n p. Written)"
  "time_time site = (\<lambda>n. 1700000000)" "strftime site = (\<lambda>n. ''2026-11-03'')"
  by (simp_all add: site_def)

lemma pdf_response_fields:
  "header (pdf_response len) ''content-length'' = Some len"
  "header (pdf_response len) ''Content-Type'' = Some ''application/pdf''"
  "content (pdf_response len) = Some ''%PDF-1.4''"
  by (simp_all add: header_content_length header_content_type pdf_response_def)

lemma urlparse_docs_a:
  "urlparse ip6 ''https://mohfw.gov.in/docs/a.pdf'' '''' =
     Inr \<lparr>scheme = ''https'', netloc = ''mohfw.gov.in'', path = ''/docs/a.pdf'',
          query = '''', fragment = '''', params = ''''\<rparr>"
  by code_simp

lemma derive_filename_docs_a: "derive_filename now ''/docs/a.pdf'' = ''a.pdf''"
  by code_simp

lemma path_join_a: "path_join ''data_dump/General_Medicine/MoHFW'' ''a.pdf'' =
    ''data_dump/General_Medicine/MoHFW/a.pdf''"
  by code_simp

theorem save_pdf_size_filter_witness:
  "save_pdf site ''https://mohfw.gov.in/docs/a.pdf'' (pdf_response ''20000'') (init Map.empty) =
     emit (Log INFO (Skipping_small_PDF 20000 ''https://mohfw.gov.in/docs/a.pdf''))
       (init Map.empty) \<and>
   save_pdf site ''https://mohfw.gov.in/docs/a.pdf'' (pdf_response ''60000'') (init Map.empty) =
     emit (Log INFO (Downloaded ''a.pdf'' 5859))
       ((init Map.empty)\<lparr>pdfs_downloaded := 1, total_size_bytes := 60000,
          disk := [''data_dump/General_Medicine/MoHFW/a.pdf'' \<mapsto> Pdf ''%PDF-1.4'',
            ''data_dump/General_Medicine/MoHFW/a.pdf.json'' \<mapsto> Sidecar
               \<lparr>source_authority = ''MoHFW'', tier = ''Tier1'',
                download_url = ''https://mohfw.gov.in/docs/a.pdf'', file_name = ''a.pdf'',
                crawl_date = ''2026-11-03'', file_size_kb_x100 = 5859\<rparr>]\<rparr>)"
  using save_pdf_size_filter[of "pdf_response ''20000''" 20000 site
          "''https://mohfw.gov.in/docs/a.pdf''" "init Map.empty"]
        save_pdf_size_filter[of "pdf_response ''60000''" 0 site
          "''https://mohfw.gov.in/docs/a.pdf''" "init Map.empty" "''%PDF-1.4''"
          "\<lparr>scheme = ''https'', netloc = ''mohfw.gov.in'', path = ''/docs/a.pdf'',
            query = '''', fragment = '''', params = ''''\<rparr>"
          "''data_dump/General_Medicine/MoHFW/a.pdf''"]
  by (simp add: pdf_response_fields site_fields urlparse_docs_a derive_filename_docs_a
        download_dir_eq path_join_a init_def)

section \<open>save_pdf: what the counters are computed from, and failing writes\<close>

text \<open>Once the PDF is written the counters grow, whatever happens to the sidecar.\<close>

lemma save_pdf_try_written:
  assumes len: "declared_length r = Inr n" and big: "pdf_min_size \<le> n"
    and url: "urlparse (ip_address6 w) url '''' = Inr p"
    and fp: "fp = path_join download_dir (derive_filename (time_time w (clock s)) (path p))"
    and wp: "write_pdf w r fp s = (None, s1)"
  shows "pdfs_downloaded (snd (save_pdf_try w url r s)) = pdfs_downloaded s1 + 1 \<and>
         total_size_bytes (snd (save_pdf_try w url r s)) = total_size_bytes s1 + n \<and>
         disk (snd (save_pdf_try w url r s)) fp = disk s1 fp"
proof -
  have nb: "\<not> n < pdf_min_size"
    using big by simp
  have ne: "fp @ ''.json'' \<noteq> fp"
    by simp
  show ?thesis
    unfolding save_pdf_try_def
    by (simp add: len nb url Let_def fp[symmetric] wp write_json_def emit_def
          split: sum.split io_outcome.split)
qed

lemma write_pdf_frame:
  assumes "write_pdf w r fp s = (x, s1)"
  shows "pdfs_downloaded s1 = pdfs_downloaded s \<and> total_size_bytes s1 = total_size_bytes s \<and>
         queue s1 = queue s \<and> visited s1 = visited s \<and> pages_visited s1 = pages_visited s"
  using assms by (auto simp: write_pdf_def split: io_outcome.splits option.splits)

lemma save_pdf_counters:
  assumes len: "declared_length r = Inr n" and big: "pdf_min_size \<le> n"
    and url: "urlparse (ip_address6 w) url '''' = Inr p"
    and fp: "fp = path_join download_dir (derive_filename (time_time w (clock s)) (path p))"
    and body: "content r = Some bytes"
    and w1: "file_write w (clock s) fp = Written"
  shows "pdfs_downloaded (save_pdf w url r s) = pdfs_downloaded s + 1 \<and>
         total_size_bytes (save_pdf w url r s) = total_size_bytes s + n \<and>
         disk (save_pdf w url r s) fp = Some (Pdf bytes)"
proof -
  have wp: "write_pdf w r fp s = (None, s\<lparr>disk := (disk s)(fp \<mapsto> Pdf bytes)\<rparr>)"
    by (simp add: write_pdf_def w1 body)
  have "pdfs_downloaded (snd (save_pdf_try w url r s)) = pdfs_downloaded s + 1 \<and>
        total_size_bytes (snd (save_pdf_try w url r s)) = total_size_bytes s + n \<and>
        disk (snd (save_pdf_try w url r s)) fp = Some (Pdf bytes)"
    using save_pdf_try_written[OF len big url fp wp] by simp
  then show ?thesis
    by (cases "save_pdf_try w url r s"; cases "fst (save_pdf_try w url r s)")
       (auto simp: save_pdf_def emit_def)
qed

text \<open>
  When the declared length is beyond the largest float, \<open>round(content_length / 1024, 2)\<close>
  raises after the PDF was written and counted: no sidecar is written.
\<close>

lemma save_pdf_kb_overflow:
  assumes len: "declared_length r = Inr n" and big: "pdf_min_size \<le> n"
    and ov: "float_overflow n"
    and url: "urlparse (ip_address6 w) url '''' = Inr p"
    and body: "content r = Some bytes"
    and fp: "fp = path_join download_dir (derive_filename (time_time w (clock s)) (path p))"
    and w1: "file_write w (clock s) fp = Written"
  shows "save_pdf w url r s =
     emit (Log ERROR (Error_saving_PDF url OverflowError))
       (s\<lparr>pdfs_downloaded := pdfs_downloaded s + 1,
          total_size_bytes := total_size_bytes s + n,
          disk := (disk s)(fp \<mapsto> Pdf bytes)\<rparr>)"
proof -
  have kb: "file_size_kb n = Inl OverflowError"
    using ov by (simp add: file_size_kb_def)
  have wp: "write_pdf w r fp s = (None, s\<lparr>disk := (disk s)(fp \<mapsto> Pdf bytes)\<rparr>)"
    by (simp add: write_pdf_def w1 body)
  have nb: "\<not> n < pdf_min_size"
    using big by simp
  show ?thesis
    unfolding save_pdf_def save_pdf_try_def
    by (simp add: len nb url Let_def fp[symmetric] wp kb emit_def)
qed

text \<open>
  Claim C10. A PDF response without a \<open>content-length\<close> header has declared length 0
  and is skipped: one log line, nothing written, no counter changed. When a PDF is
  archived, the counters and the sidecar are computed from the declared length \<open>n\<close>:
  whatever the bytes of the body are, \<open>pdfs_downloaded\<close> grows by 1,
  \<open>total_size_bytes\<close> by \<open>n\<close>, and the sidecar holds the float \<open>n / 1024\<close> rounded to
  hundredths. Below \<open>2 ^ 53\<close> bytes the float is the exact quotient; from there on it
  is \<open>n\<close> rounded to 53 significant bits, over 1024; and when \<open>n / 1024\<close> is beyond the
  largest float the PDF is written and counted, the error is logged and no sidecar
  is written.
\<close>

theorem save_pdf_declared_length:
  "(header r ''content-length'' = None \<longrightarrow>
      declared_length r = Inr 0 \<and>
      save_pdf w url r s = emit (Log INFO (Skipping_small_PDF 0 url)) s) \<and>
   (declared_length r = Inr n \<and> pdf_min_size \<le> n \<and> content r = Some bytes \<and>
    urlparse (ip_address6 w) url '''' = Inr p \<and>
    fp = path_join download_dir (derive_filename (time_time w (clock s)) (path p)) \<and>
    file_write w (clock s) fp = Written \<longrightarrow>
      pdfs_downloaded (save_pdf w url r s) = pdfs_downloaded s + 1 \<and>
      total_size_bytes (save_pdf w url r s) = total_size_bytes s + n \<and>
      (n < 2 ^ 53 \<and> file_write w (clock s) (fp @ ''.json'') = Written \<longrightarrow>
         disk (save_pdf w url r s) (fp @ ''.json'') =
           Some (Sidecar
             \<lparr>source_authority = ''MoHFW'', tier = ''Tier1'', download_url = url,
              file_name = derive_filename (time_time w (clock s)) (path p),
              crawl_date = strftime w (clock s),
              file_size_kb_x100 = round_half_even (n * 100) 1024\<rparr>)) \<and>
      (n < 2 ^ 1034 - 2 ^ 980 \<and> file_write w (clock s) (fp @ ''.json'') = Written \<longrightarrow>
         disk (save_pdf w url r s) (fp @ ''.json'') =
           Some (Sidecar
             \<lparr>source_authority = ''MoHFW'', tier = ''Tier1'', download_url = url,
              file_name = derive_filename (time_time w (clock s)) (path p),
              crawl_date = strftime w (clock s),
              file_size_kb_x100 = round_half_even (round53 n * 100) 1024\<rparr>)) \<and>
      (2 ^ 1034 - 2 ^ 980 \<le> n \<longrightarrow>
         save_pdf w url r s =
           emit (Log ERROR (Error_saving_PDF url OverflowError))
             (s\<lparr>pdfs_downloaded := pdfs_downloaded s + 1,
                total_size_bytes := total_size_bytes s + n,
                disk := (disk s)(fp \<mapsto> Pdf bytes)\<rparr>)))"
proof (intro conjI impI)
  assume h: "header r ''content-length'' = None"
  then show d: "declared_length r = Inr 0"
    by (simp add: declared_length_def)
  show "save_pdf w url r s = emit (Log INFO (Skipping_small_PDF 0 url)) s"
    using save_pdf_small[OF d, of w url s] by (simp add: pdf_min_size_def)
next
  assume a: "declared_length r = Inr n \<and> pdf_min_size \<le> n \<and> content r = Some bytes \<and>
    urlparse (ip_address6 w) url '''' = Inr p \<and>
    fp = path_join download_dir (derive_filename (time_time w (clock s)) (path p)) \<and>
    file_write w (clock s) fp = Written"
  from a have len: "declared_length r = Inr n"
    by blast
  from a have big: "pdf_min_size \<le> n"
    by blast
  from a have body: "content r = Some bytes"
    by blast
  from a have url: "urlparse (ip_address6 w) url '''' = Inr p"
    by blast
  from a have fp: "fp = path_join download_dir (derive_filename (time_time w (clock s)) (path p))"
    by blast
  from a have w1: "file_write w (clock s) fp = Written"
    by blast
  show "pdfs_downloaded (save_pdf w url r s) = pdfs_downloaded s + 1"
    using save_pdf_counters[OF len big url fp body w1] by blast
  show "total_size_bytes (save_pdf w url r s) = total_size_bytes s + n"
    using save_pdf_counters[OF len big url fp body w1] by blast
next
  assume a: "declared_length r = Inr n \<and> pdf_min_size \<le> n \<and> content r = Some bytes \<and>
    urlparse (ip_address6 w) url '''' = Inr p \<and>
    fp = path_join download_dir (derive_filename (time_time w (clock s)) (path p)) \<and>
    file_write w (clock s) fp = Written"
  assume b: "n < 2 ^ 53 \<and> file_write w (clock s) (fp @ ''.json'') = Written"
  from a have len: "declared_length r = Inr n"
    by blast
  from a have big: "pdf_min_size \<le> n"
    by blast
  from a have body: "content r = Some bytes"
    by blast
  from a have url: "urlparse (ip_address6 w) url '''' = Inr p"
    by blast
  from a have fp: "fp = path_join download_dir (derive_filename (time_time w (clock s)) (path p))"
    by blast
  from a have w1: "file_write w (clock s) fp = Written"
    by blast
  from b have small: "n < 2 ^ 53"
    by blast
  from b have w2: "file_write w (clock s) (fp @ ''.json'') = Written"
    by blast
  have pos: "0 \<le> n"
    using big by (rule pdf_min_size_nonneg)
  have ex: "round53 n = n"
    using pos small by (rule round53_exact)
  have "n < 2 ^ 1034 - 2 ^ 980"
    using small by simp
  then have fl: "\<not> float_overflow n"
    using pos by (simp add: float_overflow_iff)
  show "disk (save_pdf w url r s) (fp @ ''.json'') =
           Some (Sidecar
             \<lparr>source_authority = ''MoHFW'', tier = ''Tier1'', download_url = url,
              file_name = derive_filename (time_time w (clock s)) (path p),
              crawl_date = strftime w (clock s),
              file_size_kb_x100 = round_half_even (n * 100) 1024\<rparr>)"
    by (simp add: save_pdf_archived[OF len big fl url body fp w1 w2] emit_def ex)
next
  assume a: "declared_length r = Inr n \<and> pdf_min_size \<le> n \<and> content r = Some bytes \<and>
    urlparse (ip_address6 w) url '''' = Inr p \<and>
    fp = path_join download_dir (derive_filename (time_time w (clock s)) (path p)) \<and>
    file_write w (clock s) fp = Written"
  assume b: "n < 2 ^ 1034 - 2 ^ 980 \<and> file_write w (clock s) (fp @ ''.json'') = Written"
  from a have len: "declared_length r = Inr n"
    by blast
  from a have big: "pdf_min_size \<le> n"
    by blast
  from a have body: "content r = Some bytes"
    by blast
  from a have url: "urlparse (ip_address6 w) url '''' = Inr p"
    by blast
  from a have fp: "fp = path_join download_dir (derive_filename (time_time w (clock s)) (path p))"
    by blast
  from a have w1: "file_write w (clock s) fp = Written"
    by blast
  from b have w2: "file_write w (clock s) (fp @ ''.json'') = Written"
    by blast
  have pos: "0 \<le> n"
    using big by (rule pdf_min_size_nonneg)
  from b have "n < 2 ^ 1034 - 2 ^ 980"
    by blast
  then have fl: "\<not> float_overflow n"
    using pos by (simp add: float_overflow_iff)
  show "disk (save_pdf w url r s) (fp @ ''.json'') =
           Some (Sidecar
             \<lparr>source_authority = ''MoHFW'', tier = ''Tier1'', download_url = url,
              file_name = derive_filename (time_time w (clock s)) (path p),
              crawl_date = strftime w (clock s),
              file_size_kb_x100 = round_half_even (round53 n * 100) 1024\<rparr>)"
    by (simp add: save_pdf_archived[OF len big fl url body fp w1 w2] emit_def)
next
  assume a: "declared_length r = Inr n \<and> pdf_min_size \<le> n \<and> content r = Some bytes \<and>
    urlparse (ip_address6 w) url '''' = Inr p \<and>
    fp = path_join download_dir (derive_filename (time_time w (clock s)) (path p)) \<and>
    file_write w (clock s) fp = Written"
  assume b: "2 ^ 1034 - 2 ^ 980 \<le> n"
  from a have len: "declared_length r = Inr n"
    by blast
  from a have big: "pdf_min_size \<le> n"
    by blast
  from a have body: "content r = Some bytes"
    by blast
  from a have url: "urlparse (ip_address6 w) url '''' = Inr p"
    by blast
  from a have fp: "fp = path_join download_dir (derive_filename (time_time w (clock s)) (path p))"
    by blast
  from a have w1: "file_write w (clock s) fp = Written"
    by blast
  have pos: "0 \<le> n"
    using big by (rule pdf_min_size_nonneg)
  have ov: "float_overflow n"
    using pos b by (simp add: float_overflow_iff)
  show "save_pdf w url r s =
           emit (Log ERROR (Error_saving_PDF url OverflowError))
             (s\<lparr>pdfs_downloaded := pdfs_downloaded s + 1,
                total_size_bytes := total_size_bytes s + n,
                disk := (disk s)(fp \<mapsto> Pdf bytes)\<rparr>)"
    by (rule save_pdf_kb_overflow[OF len big ov url body fp w1])
qed

lemma html_response_fields:
  "header (html_response html) ''content-length'' = None"
  "header (html_response html) ''Content-Type'' = Some ''text/html; charset=utf-8''"
  "content (html_response html) = Some html"
  by (simp_all add: header_content_length header_content_type html_response_def)

text \<open>
  Three declared lengths: 60000, \<open>2 ^ 60 + 100\<close> (where the float quotient is not the
  exact one: the sidecar holds 1125899906842624.0, not 1125899906842624.1) and
  \<open>10 ^ 320\<close> (beyond the largest float).
\<close>

lemma py_int_big: "py_int ''1152921504606847076'' = Inr 1152921504606847076"
  by (simp add: py_int_eval)

lemma bit_length_big: "bit_length 1152921504606847076 = 61"
  by (simp add: bit_length.simps)

lemma round53_big: "round53 1152921504606847076 = 1152921504606846976"
  by (simp add: round53_def bit_length_big round_half_even_def)

lemma py_int_huge: "py_int huge_length = Inr (10 ^ 320)"
  by (simp add: huge_length_def py_int_eval)

theorem save_pdf_declared_length_witness:
  "save_pdf site ''https://mohfw.gov.in/docs/a.pdf'' (html_response ''%PDF-1.4'') (init Map.empty) =
     emit (Log INFO (Skipping_small_PDF 0 ''https://mohfw.gov.in/docs/a.pdf'')) (init Map.empty) \<and>
   length ''%PDF-1.4'' = 8 \<and>
   pdfs_downloaded (save_pdf site ''https://mohfw.gov.in/docs/a.pdf'' (pdf_response ''60000'')
      (init Map.empty)) = 1 \<and>
   total_size_bytes (save_pdf site ''https://mohfw.gov.in/docs/a.pdf'' (pdf_response ''60000'')
      (init Map.empty)) = 60000 \<and>
   disk (save_pdf site ''https://mohfw.gov.in/docs/a.pdf'' (pdf_response ''60000'')
      (init Map.empty)) ''data_dump/General_Medicine/MoHFW/a.pdf.json'' =
     Some (Sidecar \<lparr>source_authority = ''MoHFW'', tier = ''Tier1'',
        download_url = ''https://mohfw.gov.in/docs/a.pdf'', file_name = ''a.pdf'',
        crawl_date = ''2026-11-03'', file_size_kb_x100 = 5859\<rparr>) \<and>
   total_size_bytes (save_pdf site ''https://mohfw.gov.in/docs/a.pdf''
      (pdf_response ''1152921504606847076'') (init Map.empty)) = 2 ^ 60 + 100 \<and>
   disk (save_pdf site ''https://mohfw.gov.in/docs/a.pdf''
      (pdf_response ''1152921504606847076'') (init Map.empty))
      ''data_dump/General_Medicine/MoHFW/a.pdf.json'' =
     Some (Sidecar \<lparr>source_authority = ''MoHFW'', tier = ''Tier1'',
        download_url = ''https://mohfw.gov.in/docs/a.pdf'', file_name = ''a.pdf'',
        crawl_date = ''2026-11-03'', file_size_kb_x100 = 112589990684262400\<rparr>) \<and>
   save_pdf site ''https://mohfw.gov.in/docs/a.pdf'' (pdf_response huge_length) (init Map.empty) =
     emit (Log ERROR (Error_saving_PDF ''https://mohfw.gov.in/docs/a.pdf'' OverflowError))
       ((init Map.empty)\<lparr>pdfs_downloaded := 1, total_size_bytes := 10 ^ 320,
          disk := [''data_dump/General_Medicine/MoHFW/a.pdf'' \<mapsto> Pdf ''%PDF-1.4'']\<rparr>)"
  using save_pdf_declared_length[of "html_response ''%PDF-1.4''" site
          "''https://mohfw.gov.in/docs/a.pdf''" "init Map.empty" 0]
        save_pdf_declared_length[of "pdf_response ''60000''" site
          "''https://mohfw.gov.in/docs/a.pdf''" "init Map.empty" 60000 "''%PDF-1.4''"
          "\<lparr>scheme = ''https'', netloc = ''mohfw.gov.in'', path = ''/docs/a.pdf'',
            query = [], fragment = [], params = []\<rparr>"
          "''data_dump/General_Medicine/MoHFW/a.pdf''"]
        save_pdf_declared_length[of "pdf_response ''1152921504606847076''" site
          "''https://mohfw.gov.in/docs/a.pdf''" "init Map.empty" 1152921504606847076
          "''%PDF-1.4''"
          "\<lparr>scheme = ''https'', netloc = ''mohfw.gov.in'', path = ''/docs/a.pdf'',
            query = [], fragment = [], params = []\<rparr>"
          "''data_dump/General_Medicine/MoHFW/a.pdf''"]
        save_pdf_declared_length[of "pdf_response huge_length" site
          "''https://mohfw.gov.in/docs/a.pdf''" "init Map.empty" "10 ^ 320" "''%PDF-1.4''"
          "\<lparr>scheme = ''https'', netloc = ''mohfw.gov.in'', path = ''/docs/a.pdf'',
            query = [], fragment = [], params = []\<rparr>"
          "''data_dump/General_Medicine/MoHFW/a.pdf''"]
  by (simp add: pdf_response_fields html_response_fields site_fields urlparse_docs_a
        derive_filename_docs_a download_dir_eq path_join_a init_def declared_length_def
        py_int_60000 py_int_big py_int_huge pdf_min_size_def round53_big
        round_half_even_def)

text \<open>A failing PDF write: the error is logged and the counters stay as they were.\<close>

lemma save_pdf_pdf_write_fails:
  assumes len: "declared_length r = Inr n" and big: "pdf_min_size \<le> n"
    and url: "urlparse (ip_address6 w) url '''' = Inr p"
    and fp: "fp = path_join download_dir (derive_filename (time_time w (clock s)) (path p))"
    and wp: "write_pdf w r fp s = (Some e, s1)"
  shows "save_pdf w url r s = emit (Log ERROR (Error_saving_PDF url e)) s1"
proof -
  have nb: "\<not> n < pdf_min_size"
    using big by simp
  show ?thesis
    unfolding save_pdf_def save_pdf_try_def
    by (simp add: len nb url Let_def fp[symmetric] wp)
qed

text \<open>A failing sidecar write, after the PDF was written: the error is logged.\<close>

lemma save_pdf_sidecar_fails:
  assumes len: "declared_length r = Inr n" and big: "pdf_min_size \<le> n"
    and fl: "n < 2 ^ 1034 - 2 ^ 980"
    and url: "urlparse (ip_address6 w) url '''' = Inr p"
    and fp: "fp = path_join download_dir (derive_filename (time_time w (clock s)) (path p))"
    and wp: "write_pdf w r fp s = (None, s1)"
    and w2: "file_write w (clock s) (fp @ ''.json'') \<noteq> Written"
  shows "last (trace (save_pdf w url r s)) = Log ERROR (Error_saving_PDF url OSError)"
proof -
  have nb: "\<not> n < pdf_min_size"
    using big by simp
  have "\<not> float_overflow n"
    using fl big by (simp add: float_overflow_iff pdf_min_size_nonneg)
  then have kb: "file_size_kb n = Inr (round_half_even (round53 n * 100) 1024)"
    by (simp add: file_size_kb_def)
  have ck: "clock s1 = clock s"
    using wp by (auto simp: write_pdf_def split: io_outcome.splits option.splits)
  show ?thesis
    unfolding save_pdf_def save_pdf_try_def
    using w2
    by (cases "file_write w (clock s) (fp @ ''.json'')")
       (simp_all add: len nb url Let_def fp[symmetric] wp kb write_json_def emit_def ck)
qed

text \<open>
  Claim C5, as amended. When the PDF is to be archived (declared length of at least the
  minimum, URL parsed), a failure of either write is caught by \<open>save_pdf\<close>, which logs
  it as its last action and returns; the loop body goes on normally after it. When the
  PDF write fails the counters are unchanged. When the sidecar write fails the PDF has
  been written and counted: \<open>pdfs_downloaded\<close> has grown by 1 and \<open>total_size_bytes\<close> by
  the declared length.
\<close>

theorem save_pdf_write_failure:
  "(classify url r = PDF \<and> get_response w url s0 = (Inr (Some r), s) \<longrightarrow>
      visit w url s0 = (Done, save_pdf w url r s)) \<and>
   (declared_length r = Inr n \<and> pdf_min_size \<le> n \<and>
    urlparse (ip_address6 w) url '''' = Inr p \<and>
    fp = path_join download_dir (derive_filename (time_time w (clock s)) (path p)) \<longrightarrow>
      (write_pdf w r fp s = (Some e, s1) \<longrightarrow>
         save_pdf w url r s = emit (Log ERROR (Error_saving_PDF url e)) s1 \<and>
         pdfs_downloaded (save_pdf w url r s) = pdfs_downloaded s \<and>
         total_size_bytes (save_pdf w url r s) = total_size_bytes s) \<and>
      (write_pdf w r fp s = (None, s1) \<and> n < 2 ^ 1034 - 2 ^ 980 \<and>
       file_write w (clock s) (fp @ ''.json'') \<noteq> Written \<longrightarrow>
         last (trace (save_pdf w url r s)) = Log ERROR (Error_saving_PDF url OSError) \<and>
         pdfs_downloaded (save_pdf w url r s) = pdfs_downloaded s + 1 \<and>
         total_size_bytes (save_pdf w url r s) = total_size_bytes s + n \<and>
         disk (save_pdf w url r s) fp = disk s1 fp))"
proof (intro conjI impI)
  assume "classify url r = PDF \<and> get_response w url s0 = (Inr (Some r), s)"
  then show "visit w url s0 = (Done, save_pdf w url r s)"
    by (simp add: visit_def)
next
  assume a: "declared_length r = Inr n \<and> pdf_min_size \<le> n \<and>
    urlparse (ip_address6 w) url '''' = Inr p \<and>
    fp = path_join download_dir (derive_filename (time_time w (clock s)) (path p))"
  assume wp: "write_pdf w r fp s = (Some e, s1)"
  from a have len: "declared_length r = Inr n"
    by blast
  from a have big: "pdf_min_size \<le> n"
    by blast
  from a have url: "urlparse (ip_address6 w) url '''' = Inr p"
    by blast
  from a have fp: "fp = path_join download_dir (derive_filename (time_time w (clock s)) (path p))"
    by blast
  show eq: "save_pdf w url r s = emit (Log ERROR (Error_saving_PDF url e)) s1"
    by (rule save_pdf_pdf_write_fails[OF len big url fp wp])
  show "pdfs_downloaded (save_pdf w url r s) = pdfs_downloaded s"
    using write_pdf_frame[OF wp] by (simp add: eq emit_def)
  show "total_size_bytes (save_pdf w url r s) = total_size_bytes s"
    using write_pdf_frame[OF wp] by (simp add: eq emit_def)
next
  assume a: "declared_length r = Inr n \<and> pdf_min_size \<le> n \<and>
    urlparse (ip_address6 w) url '''' = Inr p \<and>
    fp = path_join download_dir (derive_filename (time_time w (clock s)) (path p))"
  assume b: "write_pdf w r fp s = (None, s1) \<and> n < 2 ^ 1034 - 2 ^ 980 \<and>
       file_write w (clock s) (fp @ ''.json'') \<noteq> Written"
  from a have len: "declared_length r = Inr n"
    by blast
  from a have big: "pdf_min_size \<le> n"
    by blast
  from a have url: "urlparse (ip_address6 w) url '''' = Inr p"
    by blast
  from a have fp: "fp = path_join download_dir (derive_filename (time_time w (clock s)) (path p))"
    by blast
  from b have wp: "write_pdf w r fp s = (None, s1)"
    by blast
  from b have fl: "n < 2 ^ 1034 - 2 ^ 980"
    by blast
  from b have w2: "file_write w (clock s) (fp @ ''.json'') \<noteq> Written"
    by blast
  have tr: "pdfs_downloaded (snd (save_pdf_try w url r s)) = pdfs_downloaded s1 + 1 \<and>
         total_size_bytes (snd (save_pdf_try w url r s)) = total_size_bytes s1 + n \<and>
         disk (snd (save_pdf_try w url r s)) fp = disk s1 fp"
    by (rule save_pdf_try_written[OF len big url fp wp])
  have sv: "pdfs_downloaded (save_pdf w url r s) = pdfs_downloaded (snd (save_pdf_try w url r s)) \<and>
        total_size_bytes (save_pdf w url r s) = total_size_bytes (snd (save_pdf_try w url r s)) \<and>
        disk (save_pdf w url r s) = disk (snd (save_pdf_try w url r s))"
    by (cases "save_pdf_try w url r s"; cases "fst (save_pdf_try w url r s)")
       (auto simp: save_pdf_def emit_def)
  show "last (trace (save_pdf w url r s)) = Log ERROR (Error_saving_PDF url OSError)"
    by (rule save_pdf_sidecar_fails[OF len big fl url fp wp w2])
  show "pdfs_downloaded (save_pdf w url r s) = pdfs_downloaded s + 1"
    using tr sv write_pdf_frame[OF wp] by simp
  show "total_size_bytes (save_pdf w url r s) = total_size_bytes s + n"
    using tr sv write_pdf_frame[OF wp] by simp
  show "disk (save_pdf w url r s) fp = disk s1 fp"
    using tr sv by simp
qed

lemma sidecar_fails_fields:
  "ip_address6 sidecar_fails = (\<lambda>h. False)"
  "file_write sidecar_fails = (\<lambda>n p. if endswith p ''.json'' then OpenFails else Written)"
  "time_time sidecar_fails = (\<lambda>n. 1700000000)" "strftime sidecar_fails = (\<lambda>n. ''2026-11-03'')"
  "requests_get sidecar_fails = requests_get site"
  by (simp_all add: sidecar_fails_def site_def)

lemma disk_full_fields:
  "ip_address6 disk_full = (\<lambda>h. False)"
  "file_write disk_full = (\<lambda>n p. WriteFails)"
  "time_time disk_full = (\<lambda>n. 1700000000)" "strftime disk_full = (\<lambda>n. ''2026-11-03'')"
  by (simp_all add: disk_full_def site_def)

lemma site_get_report:
  "requests_get site n ''https://mohfw.gov.in/report.pdf'' = Returns (pdf_response ''100000'')"
  by (simp add: site_def seed_url_def)

lemma contains_application_pdf: "contains (lower ''application/pdf'') ''application/pdf''"
  by code_simp

lemma classify_pdf_response: "classify url (pdf_response len) = PDF"
  by (simp add: classify_def content_type_of_def pdf_response_fields contains_application_pdf)

lemma endswith_json: "endswith ''data_dump/General_Medicine/MoHFW/a.pdf.json'' ''.json''"
  "\<not> endswith ''data_dump/General_Medicine/MoHFW/a.pdf'' ''.json''"
  by (simp_all add: endswith_def)

theorem save_pdf_write_failure_witness:
  "visit sidecar_fails ''https://mohfw.gov.in/report.pdf'' (init Map.empty) =
     (Done, save_pdf sidecar_fails ''https://mohfw.gov.in/report.pdf'' (pdf_response ''100000'')
        ((emit (Get ''https://mohfw.gov.in/report.pdf'') (init Map.empty))\<lparr>clock := 1\<rparr>)) \<and>
   save_pdf disk_full ''https://mohfw.gov.in/docs/a.pdf'' (pdf_response ''60000'') (init Map.empty) =
     emit (Log ERROR (Error_saving_PDF ''https://mohfw.gov.in/docs/a.pdf'' OSError))
       ((init Map.empty)\<lparr>disk := [''data_dump/General_Medicine/MoHFW/a.pdf'' \<mapsto> Partial]\<rparr>) \<and>
   pdfs_downloaded (save_pdf disk_full ''https://mohfw.gov.in/docs/a.pdf'' (pdf_response ''60000'')
      (init Map.empty)) = 0 \<and>
   total_size_bytes (save_pdf disk_full ''https://mohfw.gov.in/docs/a.pdf'' (pdf_response ''60000'')
      (init Map.empty)) = 0 \<and>
   last (trace (save_pdf sidecar_fails ''https://mohfw.gov.in/docs/a.pdf'' (pdf_response ''60000'')
      (init Map.empty))) = Log ERROR (Error_saving_PDF ''https://mohfw.gov.in/docs/a.pdf'' OSError) \<and>
   pdfs_downloaded (save_pdf sidecar_fails ''https://mohfw.gov.in/docs/a.pdf''
      (pdf_response ''60000'') (init Map.empty)) = 1 \<and>
   total_size_bytes (save_pdf sidecar_fails ''https://mohfw.gov.in/docs/a.pdf''
      (pdf_response ''60000'') (init Map.empty)) = 60000 \<and>
   disk (save_pdf sidecar_fails ''https://mohfw.gov.in/docs/a.pdf''
      (pdf_response ''60000'') (init Map.empty)) ''data_dump/General_Medicine/MoHFW/a.pdf'' =
     Some (Pdf ''%PDF-1.4'')"
  using save_pdf_write_failure[where url = "''https://mohfw.gov.in/report.pdf''"
          and r = "pdf_response ''100000''" and w = sidecar_fails and ?s0.0 = "init Map.empty"
          and s = "(emit (Get ''https://mohfw.gov.in/report.pdf'') (init Map.empty))\<lparr>clock := 1\<rparr>"
          and n = 0 and fp = "''''" and e = OSError]
        save_pdf_write_failure[where url = "''https://mohfw.gov.in/docs/a.pdf''"
          and r = "pdf_response ''60000''" and w = disk_full and ?s0.0 = "init Map.empty"
          and s = "init Map.empty" and n = 60000
          and p = "\<lparr>scheme = ''https'', netloc = ''mohfw.gov.in'', path = ''/docs/a.pdf'',
            query = '''', fragment = '''', params = ''''\<rparr>"
          and fp = "''data_dump/General_Medicine/MoHFW/a.pdf''" and e = OSError
          and ?s1.0 = "(init Map.empty)\<lparr>disk := [''data_dump/General_Medicine/MoHFW/a.pdf'' \<mapsto> Partial]\<rparr>"]
        save_pdf_write_failure[where url = "''https://mohfw.gov.in/docs/a.pdf''"
          and r = "pdf_response ''60000''" and w = sidecar_fails and ?s0.0 = "init Map.empty"
          and s = "init Map.empty" and n = 60000
          and p = "\<lparr>scheme = ''https'', netloc = ''mohfw.gov.in'', path = ''/docs/a.pdf'',
            query = '''', fragment = '''', params = ''''\<rparr>"
          and fp = "''data_dump/General_Medicine/MoHFW/a.pdf''" and e = OSError
          and ?s1.0 = "(init Map.empty)\<lparr>disk := [''data_dump/General_Medicine/MoHFW/a.pdf'' \<mapsto> Pdf ''%PDF-1.4'']\<rparr>"]
  by (simp add: pdf_response_fields sidecar_fails_fields disk_full_fields urlparse_docs_a
        derive_filename_docs_a download_dir_eq path_join_a init_def declared_length_def
        py_int_60000 pdf_min_size_def classify_pdf_response get_response_def range_max_retries
        site_get_report emit_def write_pdf_def endswith_json)

theorem save_pdf_sidecar_failure_counterexample:
  "file_write sidecar_fails 0 ''data_dump/General_Medicine/MoHFW/a.pdf.json'' = OpenFails \<and>
   pdfs_downloaded (init Map.empty) = 0 \<and>
   total_size_bytes (init Map.empty) = 0 \<and>
   pdfs_downloaded (save_pdf sidecar_fails ''https://mohfw.gov.in/docs/a.pdf''
      (pdf_response ''60000'') (init Map.empty)) = 1 \<and>
   total_size_bytes (save_pdf sidecar_fails ''https://mohfw.gov.in/docs/a.pdf''
      (pdf_response ''60000'') (init Map.empty)) = 60000 \<and>
   disk (save_pdf sidecar_fails ''https://mohfw.gov.in/docs/a.pdf''
      (pdf_response ''60000'') (init Map.empty)) ''data_dump/General_Medicine/MoHFW/a.pdf.json'' = None"
  by (simp add: save_pdf_def save_pdf_try_def pdf_response_fields sidecar_fails_fields urlparse_docs_a
        derive_filename_docs_a download_dir_eq path_join_a init_def declared_length_def
        py_int_60000 pdf_min_size_def emit_def write_pdf_def write_json_def endswith_json
        file_size_kb_def float_overflow_def round53_def round_half_even_def Let_def)

section \<open>crawl: what is done with a response\<close>

lemma get_response_returns:
  assumes "requests_get w (clock s) url = Returns r"
  shows "get_response w url s = (Inr (Some r), (emit (Get url) s)\<lparr>clock := Suc (clock s)\<rparr>)"
  using assms unfolding get_response_def range_max_retries by (simp add: Let_def)

lemma content_type_html: "content_type_of (html_response html) = ''text/html; charset=utf-8''"
  unfolding content_type_of_def html_response_fields by code_simp

lemma content_type_png: "content_type_of png_response = ''image/png''"
  unfolding content_type_of_def png_response_def header_content_type by code_simp

lemma content_type_pdf: "content_type_of (pdf_response len) = ''application/pdf''"
  unfolding content_type_of_def pdf_response_fields by code_simp

lemma contains_html:
  "contains ''text/html; charset=utf-8'' ''text/html''"
  "\<not> contains ''text/html; charset=utf-8'' ''application/pdf''"
  "\<not> contains ''image/png'' ''text/html''"
  "\<not> contains ''image/png'' ''application/pdf''"
  "contains ''application/pdf'' ''application/pdf''"
  by code_simp+

lemma suffix_pdf:
  "endswith (lower ''https://mohfw.gov.in/page.pdf'') ''.pdf''"
  "\<not> endswith (lower ''https://mohfw.gov.in/download'') ''.pdf''"
  "\<not> endswith (lower ''https://mohfw.gov.in/logo.png'') ''.pdf''"
  "\<not> endswith (lower ''https://mohfw.gov.in/about'') ''.pdf''"
  by code_simp+

lemma mixed_fields:
  "ip_address6 mixed = (\<lambda>h. False)" "file_write mixed = (\<lambda>n p. Written)"
  "time_time mixed = (\<lambda>n. 1700000000)" "strftime mixed = (\<lambda>n. ''2026-11-03'')"
  "find_hrefs mixed ''about'' = []"
  "requests_get mixed n ''https://mohfw.gov.in/page.pdf'' = Returns (html_response ''index'')"
  "requests_get mixed n ''https://mohfw.gov.in/download'' = Returns (pdf_response ''60000'')"
  "requests_get mixed n ''https://mohfw.gov.in/logo.png'' = Returns png_response"
  "requests_get mixed n ''https://mohfw.gov.in/about'' = Returns (html_response ''about'')"
  by (simp_all add: mixed_def site_def)

text \<open>
  Claim C4, as amended. A response is handled as a PDF when its lower-cased
  \<open>Content-Type\<close> contains \<open>application/pdf\<close> or when the lower-cased URL ends in \<open>.pdf\<close>,
  whatever the header says (also when it says \<open>text/html\<close>). Otherwise it is handled as
  HTML when the header contains \<open>text/html\<close>: its links are processed. Otherwise it is
  skipped with a log line.
\<close>

theorem visit_by_suffix_or_content_type:
  "get_response w url s0 = (Inr (Some r), s) \<longrightarrow>
     (endswith (lower url) ''.pdf'' \<longrightarrow> visit w url s0 = (Done, save_pdf w url r s)) \<and>
     (contains (content_type_of r) ''application/pdf'' \<longrightarrow>
        visit w url s0 = (Done, save_pdf w url r s)) \<and>
     (\<not> endswith (lower url) ''.pdf'' \<and> \<not> contains (content_type_of r) ''application/pdf'' \<and>
      contains (content_type_of r) ''text/html'' \<and> content r = Some html \<longrightarrow>
        visit w url s0 =
          (case process_links w url (find_hrefs w html) s of
             (Some e, s2) \<Rightarrow> (Raised e, s2)
           | (None, s2) \<Rightarrow> (Done, s2))) \<and>
     (\<not> endswith (lower url) ''.pdf'' \<and> \<not> contains (content_type_of r) ''application/pdf'' \<and>
      \<not> contains (content_type_of r) ''text/html'' \<longrightarrow>
        visit w url s0 = (Done, emit (Log INFO (Skipping_content_type (content_type_of r))) s))"
  by (simp add: visit_def classify_def)

theorem visit_by_suffix_or_content_type_witness:
  "visit mixed ''https://mohfw.gov.in/page.pdf'' (init Map.empty) =
     (Done, save_pdf mixed ''https://mohfw.gov.in/page.pdf'' (html_response ''index'')
        ((emit (Get ''https://mohfw.gov.in/page.pdf'') (init Map.empty))\<lparr>clock := 1\<rparr>)) \<and>
   visit mixed ''https://mohfw.gov.in/download'' (init Map.empty) =
     (Done, save_pdf mixed ''https://mohfw.gov.in/download'' (pdf_response ''60000'')
        ((emit (Get ''https://mohfw.gov.in/download'') (init Map.empty))\<lparr>clock := 1\<rparr>)) \<and>
   visit mixed ''https://mohfw.gov.in/about'' (init Map.empty) =
     (Done, (emit (Get ''https://mohfw.gov.in/about'') (init Map.empty))\<lparr>clock := 1\<rparr>) \<and>
   visit mixed ''https://mohfw.gov.in/logo.png'' (init Map.empty) =
     (Done, emit (Log INFO (Skipping_content_type ''image/png''))
        ((emit (Get ''https://mohfw.gov.in/logo.png'') (init Map.empty))\<lparr>clock := 1\<rparr>))"
  using visit_by_suffix_or_content_type[where w = mixed and url = "''https://mohfw.gov.in/page.pdf''"
          and ?s0.0 = "init Map.empty" and r = "html_response ''index''"
          and s = "(emit (Get ''https://mohfw.gov.in/page.pdf'') (init Map.empty))\<lparr>clock := 1\<rparr>"]
        visit_by_suffix_or_content_type[where w = mixed and url = "''https://mohfw.gov.in/download''"
          and ?s0.0 = "init Map.empty" and r = "pdf_response ''60000''"
          and s = "(emit (Get ''https://mohfw.gov.in/download'') (init Map.empty))\<lparr>clock := 1\<rparr>"]
        visit_by_suffix_or_content_type[where w = mixed and url = "''https://mohfw.gov.in/about''"
          and ?s0.0 = "init Map.empty" and r = "html_response ''about''" and html = "''about''"
          and s = "(emit (Get ''https://mohfw.gov.in/about'') (init Map.empty))\<lparr>clock := 1\<rparr>"]
        visit_by_suffix_or_content_type[where w = mixed and url = "''https://mohfw.gov.in/logo.png''"
          and ?s0.0 = "init Map.empty" and r = "png_response"
          and s = "(emit (Get ''https://mohfw.gov.in/logo.png'') (init Map.empty))\<lparr>clock := 1\<rparr>"]
  by (simp add: get_response_returns mixed_fields init_def emit_def content_type_html
        content_type_png content_type_pdf contains_html suffix_pdf html_response_fields)

theorem html_header_pdf_suffix_counterexample:
  "header (html_response ''index'') ''Content-Type'' = Some ''text/html; charset=utf-8'' \<and>
   contains (content_type_of (html_response ''index'')) ''text/html'' \<and>
   classify ''https://mohfw.gov.in/page.pdf'' (html_response ''index'') = PDF \<and>
   visit mixed ''https://mohfw.gov.in/page.pdf'' (init Map.empty) =
     (Done, emit (Log INFO (Skipping_small_PDF 0 ''https://mohfw.gov.in/page.pdf''))
        ((emit (Get ''https://mohfw.gov.in/page.pdf'') (init Map.empty))\<lparr>clock := 1\<rparr>))"
  by (simp add: visit_def classify_def get_response_returns mixed_fields init_def
        content_type_html contains_html suffix_pdf html_response_fields
        save_pdf_def save_pdf_try_def declared_length_def pdf_min_size_def emit_def)

section \<open>is_valid_url: the domain filter\<close>

lemma netloc_evilmohfw:
  "urlparse ip6 ''https://evilmohfw.gov.in/a.pdf'' '''' =
     Inr \<lparr>scheme = ''https'', netloc = ''evilmohfw.gov.in'', path = ''/a.pdf'',
          query = '''', fragment = '''', params = ''''\<rparr>"
  by code_simp

lemma netloc_evil_example:
  "urlparse ip6 ''https://evil.example.com/a.pdf'' '''' =
     Inr \<lparr>scheme = ''https'', netloc = ''evil.example.com'', path = ''/a.pdf'',
          query = '''', fragment = '''', params = ''''\<rparr>"
  by code_simp

lemma netloc_with_port:
  "urlparse ip6 ''https://mohfw.gov.in:443/docs/a.pdf'' '''' =
     Inr \<lparr>scheme = ''https'', netloc = ''mohfw.gov.in:443'', path = ''/docs/a.pdf'',
          query = '''', fragment = '''', params = ''''\<rparr>"
  by code_simp

lemma endswith_domain:
  "endswith ''evilmohfw.gov.in'' ''mohfw.gov.in''"
  "endswith ''mohfw.gov.in'' ''mohfw.gov.in''"
  "\<not> endswith ''evil.example.com'' ''mohfw.gov.in''"
  "\<not> endswith ''mohfw.gov.in:443'' ''mohfw.gov.in''"
  by (simp_all add: endswith_def)

text \<open>
  Claim C3. \<open>is_valid_url\<close> rejects \<open>https://evil.example.com/a.pdf\<close> and accepts
  \<open>https://mohfw.gov.in/docs/a.pdf\<close>, but it tests the whole \<open>netloc\<close> for the suffix
  \<open>mohfw.gov.in\<close>: it accepts \<open>https://evilmohfw.gov.in/a.pdf\<close>, whose host is neither
  the target domain nor a subdomain of it, and it rejects the target domain written
  with a port.
\<close>

theorem is_valid_url_suffix_of_netloc:
  "is_valid_url w (init d) ''https://evil.example.com/a.pdf'' = Inr False \<and>
   is_valid_url w (init d) ''https://mohfw.gov.in/docs/a.pdf'' = Inr True \<and>
   is_valid_url w (init d) ''https://evilmohfw.gov.in/a.pdf'' = Inr True \<and>
   \<not> host_in_domain ''evilmohfw.gov.in'' \<and>
   is_valid_url w (init d) ''https://mohfw.gov.in:443/docs/a.pdf'' = Inr False \<and>
   host_in_domain ''mohfw.gov.in''"
  by (simp add: is_valid_url_def netloc_evilmohfw netloc_evil_example netloc_with_port
        urlparse_docs_a endswith_domain init_def host_in_domain_def endswith_def)

section \<open>save_pdf: the file name\<close>

lemma lower_char_cases:
  "lower_char c = c \<or> c \<in> set (ascii_uppercase @ latin1_uppercase)"
proof (cases "map_of (zip (ascii_uppercase @ latin1_uppercase)
                          (ascii_lowercase @ latin1_lowercase)) c")
  case None
  then show ?thesis
    by (simp add: lower_char_def)
next
  case (Some d)
  then have "(c, d) \<in> set (zip (ascii_uppercase @ latin1_uppercase)
                                (ascii_lowercase @ latin1_lowercase))"
    by (rule map_of_SomeD)
  then have "c \<in> set (ascii_uppercase @ latin1_uppercase)"
    by (rule set_zip_leftD)
  then show ?thesis ..
qed

lemma upper_filename_char:
  "c \<in> set (ascii_uppercase @ latin1_uppercase) \<Longrightarrow> filename_char c"
  by (auto simp: filename_char_def isalnum_def)

lemma dot_pdf_filename_char: "c \<in> set ''.pdf'' \<Longrightarrow> filename_char c"
  by (auto simp: filename_char_def isalnum_def ascii_lowercase_def)

lemma lower_char_suffix_ok:
  assumes "lower_char c \<in> set ''.pdf''"
  shows "filename_char c"
proof (cases "c \<in> set (ascii_uppercase @ latin1_uppercase)")
  case True
  then show ?thesis by (rule upper_filename_char)
next
  case False
  then have "lower_char c = c"
    using lower_char_cases[of c] by simp
  with assms have "c \<in> set ''.pdf''"
    by simp
  then show ?thesis
    by (rule dot_pdf_filename_char)
qed

lemma endswith_iff: "endswith s p \<longleftrightarrow> (\<exists>pre. s = pre @ p)"
proof
  assume "endswith s p"
  then have "s = take (length s - length p) s @ p"
    by (metis append_take_drop_id endswith_def)
  then show "\<exists>pre. s = pre @ p" ..
next
  assume "\<exists>pre. s = pre @ p"
  then show "endswith s p"
    by (auto simp: endswith_def)
qed

text \<open>The filter keeps a suffix that reads \<open>.pdf\<close> in lower case, as it is written.\<close>

lemma filter_keeps_suffix:
  assumes e: "endswith (lower xs) ''.pdf''"
  shows "\<exists>pre. filter filename_char xs = pre @ drop (length xs - 4) xs \<and>
           lower (drop (length xs - 4) xs) = ''.pdf''"
proof -
  define k where "k = length xs - 4"
  from e have len: "4 \<le> length xs" and d: "drop k (lower xs) = ''.pdf''"
    by (simp_all add: endswith_def lower_def k_def eval_nat_numeral)
  have ld: "lower (drop k xs) = ''.pdf''"
    using d by (simp add: lower_def drop_map)
  have "\<forall>c \<in> set (drop k xs). filename_char c"
  proof
    fix c assume "c \<in> set (drop k xs)"
    then have "lower_char c \<in> set (lower (drop k xs))"
      by (simp add: lower_def)
    then show "filename_char c"
      using ld lower_char_suffix_ok by simp
  qed
  then have fd: "filter filename_char (drop k xs) = drop k xs"
    by (simp add: filter_id_conv)
  have "filter filename_char xs = filter filename_char (take k xs) @ filter filename_char (drop k xs)"
    by (metis append_take_drop_id filter_append)
  then have "filter filename_char xs = filter filename_char (take k xs) @ drop k xs"
    using fd by simp
  then show ?thesis
    using ld unfolding k_def by blast
qed

lemma lower_append: "lower (a @ b) = lower a @ lower b"
  by (simp add: lower_def)

lemma endswith_lower_filter:
  assumes e: "endswith (lower xs) ''.pdf''"
  shows "endswith (lower (filter filename_char xs)) ''.pdf''"
proof -
  from filter_keeps_suffix[OF e] obtain pre where
    "filter filename_char xs = pre @ drop (length xs - 4) xs"
    "lower (drop (length xs - 4) xs) = ''.pdf''"
    by blast
  then have "lower (filter filename_char xs) = lower pre @ ''.pdf''"
    by (simp add: lower_append)
  then show ?thesis
    using endswith_iff by blast
qed

lemma lower_dot_pdf: "lower ''.pdf'' = ''.pdf''"
  by code_simp

lemma filter_dot_pdf: "filter filename_char ''.pdf'' = ''.pdf''"
  by code_simp

lemma derive_filename_suffix: "endswith (lower (derive_filename now pth)) ''.pdf''"
proof -
  have "endswith (lower (if \<not> endswith (lower f) ''.pdf'' then f @ ''.pdf'' else f)) ''.pdf''" for f
    by (auto simp: lower_append lower_dot_pdf endswith_iff)
  then show ?thesis
    unfolding derive_filename_def Let_def by (intro endswith_lower_filter)
qed

text \<open>A name that the code completes ends in \<open>.pdf\<close> as written.\<close>

lemma filter_appended_suffix: "endswith (filter filename_char (f @ ''.pdf'')) ''.pdf''"
proof -
  have "filter filename_char (f @ ''.pdf'') = filter filename_char f @ ''.pdf''"
    by (simp only: filter_append filter_dot_pdf)
  then show ?thesis
    using endswith_iff by blast
qed

lemma lower_document_name:
  "endswith (lower (''document_'' @ str_of_nat now @ ''.pdf'')) ''.pdf''"
proof -
  have "lower (''document_'' @ str_of_nat now @ ''.pdf'') =
        lower (''document_'' @ str_of_nat now) @ ''.pdf''"
    by (simp only: lower_append lower_dot_pdf append_assoc)
  then show ?thesis
    using endswith_iff by blast
qed

lemma filter_document_name:
  "endswith (filter filename_char (''document_'' @ str_of_nat now @ ''.pdf'')) ''.pdf''"
  using filter_appended_suffix[of "''document_'' @ str_of_nat now"] by (simp only: append_assoc)

lemma derive_filename_completed:
  assumes "\<not> endswith (lower (basename pth)) ''.pdf''"
  shows "endswith (derive_filename now pth) ''.pdf''"
proof (cases "basename pth = [] \<or> endswith (basename pth) ''/''")
  case True
  then have "derive_filename now pth =
      filter filename_char (''document_'' @ str_of_nat now @ ''.pdf'')"
    unfolding derive_filename_def Let_def using lower_document_name[of now]
    by (simp del: append.simps)
  then show ?thesis
    using filter_document_name[of now] by simp
next
  case False
  then have "derive_filename now pth = filter filename_char (basename pth @ ''.pdf'')"
    unfolding derive_filename_def Let_def using assms by simp
  then show ?thesis
    using filter_appended_suffix[of "basename pth"] by simp
qed

text \<open>A name that ends in \<open>.pdf\<close> in whatever case is kept in its case.\<close>

lemma lower_char_slash: "lower_char CHR ''/'' = CHR ''/''"
  by code_simp

lemma suffix_not_slash:
  assumes "endswith (lower f) ''.pdf''"
  shows "f \<noteq> [] \<and> \<not> endswith f ''/''"
proof -
  from assms obtain pre where p: "lower f = pre @ ''.pdf''"
    using endswith_iff by blast
  then have ne: "f \<noteq> []"
    by (auto simp: lower_def)
  have "last (lower f) = CHR ''f''"
    using p by simp
  then have l: "lower_char (last f) = CHR ''f''"
    using ne by (simp add: lower_def last_map)
  have "\<not> endswith f ''/''"
  proof
    assume "endswith f ''/''"
    then obtain q where "f = q @ ''/''"
      using endswith_iff by blast
    then have "last f = CHR ''/''"
      by simp
    with l show False
      by (simp add: lower_char_slash)
  qed
  with ne show ?thesis ..
qed

lemma derive_filename_kept:
  assumes "endswith (lower (basename pth)) ''.pdf''"
  shows "derive_filename now pth = filter filename_char (basename pth)"
  using assms suffix_not_slash[OF assms] by (simp add: derive_filename_def Let_def)

lemma derive_filename_chars: "list_all filename_char (derive_filename now pth)"
  by (simp add: derive_filename_def Let_def list_all_iff)

lemma filename_char_not_sep: "filename_char c \<Longrightarrow> c \<noteq> CHR ''/'' \<and> c \<noteq> CHR 0x5C"
  by (auto simp: filename_char_def isalnum_def ascii_lowercase_def ascii_uppercase_def
        digits_def latin1_uppercase_def latin1_lowercase_def latin1_other_alnum_def)

lemma derive_filename_no_sep:
  "CHR ''/'' \<notin> set (derive_filename now pth) \<and> CHR 0x5C \<notin> set (derive_filename now pth)"
  using derive_filename_chars[of now pth] filename_char_not_sep
  by (auto simp: list_all_iff)

lemma endswith_pdf_length: "endswith (lower s) ''.pdf'' \<Longrightarrow> 4 \<le> length s"
  by (simp add: endswith_def lower_def)

lemma derive_filename_not_dots:
  "derive_filename now pth \<noteq> ''.'' \<and> derive_filename now pth \<noteq> ''..''"
  using endswith_pdf_length[OF derive_filename_suffix, of now pth] by auto

lemma urlparse_traversal:
  "urlparse ip6 ''https://mohfw.gov.in/../../etc/passwd.pdf'' '''' =
     Inr \<lparr>scheme = ''https'', netloc = ''mohfw.gov.in'', path = ''/../../etc/passwd.pdf'',
          query = '''', fragment = '''', params = ''''\<rparr>"
  by code_simp

lemma derive_filename_traversal:
  "derive_filename now ''../../etc/passwd.pdf'' = ''passwd.pdf''"
  "derive_filename now ''/../../etc/passwd.pdf'' = ''passwd.pdf''"
  by code_simp+

text \<open>
  Claim C8, as amended. The file name \<open>save_pdf\<close> derives has only alphanumeric
  characters, spaces, dots, underscores and hyphens, so no path separator. It ends in
  \<open>.pdf\<close> in upper, lower or mixed case: when the last segment of the path ends in
  \<open>.pdf\<close> in whatever case (the test of line 74), the name is that segment, filtered,
  in the case it is written in; otherwise the name is completed and ends in \<open>.pdf\<close>
  in lower case. So the name is neither \<open>.\<close> nor \<open>..\<close>, and the file is written inside
  the download directory. The path \<open>../../etc/passwd.pdf\<close> gives the name \<open>passwd.pdf\<close>.
\<close>

theorem derive_filename_sanitised:
  "list_all filename_char (derive_filename now pth) \<and>
   endswith (lower (derive_filename now pth)) ''.pdf'' \<and>
   (endswith (lower (basename pth)) ''.pdf'' \<longrightarrow>
      derive_filename now pth = filter filename_char (basename pth)) \<and>
   (\<not> endswith (lower (basename pth)) ''.pdf'' \<longrightarrow>
      endswith (derive_filename now pth) ''.pdf'') \<and>
   CHR ''/'' \<notin> set (derive_filename now pth) \<and>
   CHR 0x5C \<notin> set (derive_filename now pth) \<and>
   derive_filename now pth \<noteq> ''.'' \<and> derive_filename now pth \<noteq> ''..'' \<and>
   path_join download_dir (derive_filename now pth) =
     download_dir @ ''/'' @ derive_filename now pth \<and>
   derive_filename now ''../../etc/passwd.pdf'' = ''passwd.pdf'' \<and>
   map_sum id (\<lambda>p. derive_filename now (path p))
     (urlparse ip6 ''https://mohfw.gov.in/../../etc/passwd.pdf'' '''') = Inr ''passwd.pdf''"
proof -
  have "derive_filename now pth \<noteq> []"
    using endswith_pdf_length[OF derive_filename_suffix, of now pth] by auto
  moreover have "hd (derive_filename now pth) \<noteq> CHR ''/''"
    using derive_filename_no_sep[of now pth] calculation by (metis list.set_sel(1))
  ultimately have "\<not> startswith (derive_filename now pth) ''/''"
    by (cases "derive_filename now pth") (auto simp: startswith_def)
  then have "path_join download_dir (derive_filename now pth) =
     download_dir @ ''/'' @ derive_filename now pth"
    by (simp add: path_join_def download_dir_eq endswith_def)
  then show ?thesis
    using derive_filename_chars derive_filename_suffix derive_filename_no_sep
      derive_filename_not_dots derive_filename_kept derive_filename_completed
    by (simp add: derive_filename_traversal urlparse_traversal)
qed

text \<open>
  Four paths: a name in mixed case, a name without the suffix, an empty last segment,
  and a name with two letters e with acute accent, which are alphanumeric and kept.
\<close>

lemma derive_filename_mixed_case: "derive_filename now ''/docs/a b%20c.Pdf'' = ''a b20c.Pdf''"
  by code_simp

lemma derive_filename_no_suffix: "derive_filename now ''/docs/report(1)'' = ''report1.pdf''"
  by code_simp

lemma derive_filename_empty: "derive_filename 7 ''/docs/'' = ''document_7.pdf''"
  by code_simp

lemma derive_filename_accents: "derive_filename now accents_path = accents_name"
  by code_simp

lemma suffix_examples:
  "endswith (lower (basename ''/docs/a b%20c.Pdf'')) ''.pdf''"
  "filter filename_char (basename ''/docs/a b%20c.Pdf'') = ''a b20c.Pdf''"
  "list_all filename_char ''a b20c.Pdf''"
  "endswith (lower ''a b20c.Pdf'') ''.pdf''"
  "\<not> endswith ''a b20c.Pdf'' ''.pdf''"
  "CHR ''/'' \<notin> set ''a b20c.Pdf''"
  "\<not> endswith (lower (basename ''/docs/report(1)'')) ''.pdf''"
  "endswith ''report1.pdf'' ''.pdf''"
  "\<not> endswith (lower (basename ''/docs/'')) ''.pdf''"
  "endswith ''document_7.pdf'' ''.pdf''"
  "endswith (lower (basename accents_path)) ''.pdf''"
  "filter filename_char (basename accents_path) = accents_name"
  "list_all filename_char accents_name"
  "length accents_name = 10"
  by code_simp+

theorem derive_filename_sanitised_witness:
  "derive_filename 1700000000 ''/docs/a b%20c.Pdf'' = ''a b20c.Pdf'' \<and>
   endswith (lower (basename ''/docs/a b%20c.Pdf'')) ''.pdf'' \<and>
   list_all filename_char ''a b20c.Pdf'' \<and>
   endswith (lower ''a b20c.Pdf'') ''.pdf'' \<and>
   \<not> endswith ''a b20c.Pdf'' ''.pdf'' \<and>
   CHR ''/'' \<notin> set ''a b20c.Pdf'' \<and>
   derive_filename 1700000000 ''/docs/report(1)'' = ''report1.pdf'' \<and>
   \<not> endswith (lower (basename ''/docs/report(1)'')) ''.pdf'' \<and>
   endswith ''report1.pdf'' ''.pdf'' \<and>
   derive_filename 7 ''/docs/'' = ''document_7.pdf'' \<and>
   \<not> endswith (lower (basename ''/docs/'')) ''.pdf'' \<and>
   endswith ''document_7.pdf'' ''.pdf'' \<and>
   derive_filename 1700000000 accents_path = accents_name \<and>
   list_all filename_char accents_name \<and>
   length accents_name = 10"
  using derive_filename_sanitised[of 1700000000 "''/docs/a b%20c.Pdf''"]
        derive_filename_sanitised[of 1700000000 "''/docs/report(1)''"]
        derive_filename_sanitised[of 7 "''/docs/''"]
        derive_filename_sanitised[of 1700000000 accents_path]
  by (simp only: derive_filename_mixed_case derive_filename_no_suffix derive_filename_empty
        derive_filename_accents suffix_examples simp_thms)

text \<open>
  The claim as written, with a suffix \<open>.pdf\<close> in lower case, fails on a URL that ends
  in \<open>.PDF\<close>: the PDF is archived under the name \<open>A.PDF\<close>.
\<close>

lemma urlparse_docs_upper:
  "urlparse ip6 ''https://mohfw.gov.in/docs/A.PDF'' '''' =
     Inr \<lparr>scheme = ''https'', netloc = ''mohfw.gov.in'', path = ''/docs/A.PDF'',
          query = '''', fragment = '''', params = ''''\<rparr>"
  by code_simp

lemma derive_filename_upper: "derive_filename now ''/docs/A.PDF'' = ''A.PDF''"
  by code_simp

lemma path_join_upper: "path_join ''data_dump/General_Medicine/MoHFW'' ''A.PDF'' =
    ''data_dump/General_Medicine/MoHFW/A.PDF''"
  by code_simp

theorem upper_case_suffix_counterexample:
  "map_sum id (\<lambda>p. derive_filename 1700000000 (path p))
     (urlparse (\<lambda>h. False) ''https://mohfw.gov.in/docs/A.PDF'' '''') = Inr ''A.PDF'' \<and>
   \<not> endswith ''A.PDF'' ''.pdf'' \<and>
   disk (save_pdf site ''https://mohfw.gov.in/docs/A.PDF'' (pdf_response ''60000'')
      (init Map.empty)) ''data_dump/General_Medicine/MoHFW/A.PDF'' = Some (Pdf ''%PDF-1.4'') \<and>
   map_option (\<lambda>f. case f of Sidecar md \<Rightarrow> file_name md | _ \<Rightarrow> [])
     (disk (save_pdf site ''https://mohfw.gov.in/docs/A.PDF'' (pdf_response ''60000'')
        (init Map.empty)) ''data_dump/General_Medicine/MoHFW/A.PDF.json'') = Some ''A.PDF''"
  by (simp add: save_pdf_def save_pdf_try_def pdf_response_fields site_fields
        urlparse_docs_upper derive_filename_upper download_dir_eq path_join_upper init_def
        declared_length_def py_int_60000 pdf_min_size_def emit_def write_pdf_def
        write_json_def file_size_kb_def float_overflow_def round53_def round_half_even_def
        Let_def endswith_def)
section \<open>crawl: the frontier invariant\<close>

text \<open>What each step leaves unchanged.\<close>

lemma attempts_frontier:
  "queue (snd (attempts w url as s)) = queue s \<and> visited (snd (attempts w url as s)) = visited s"
proof (induction as arbitrary: s)
  case Nil
  show ?case by (simp add: emit_def)
next
  case (Cons a as)
  show ?case
  proof (cases "requests_get w (clock s) url")
    case (Returns r)
    then show ?thesis by (simp add: emit_def)
  next
    case (Raises e)
    then show ?thesis
      using Cons.IH[of "emit (Sleep 2)
              (emit (Log WARNING (Attempt_failed (a + 1) max_retries url e))
                ((emit (Get url) s)\<lparr>clock := Suc (clock s)\<rparr>))"]
      by (auto simp: emit_def Let_def)
  qed
qed

lemma get_response_frontier:
  "queue (snd (get_response w url s)) = queue s \<and> visited (snd (get_response w url s)) = visited s"
  by (simp add: get_response_def attempts_frontier)

lemma write_json_frontier:
  "queue (snd (write_json w jp md s)) = queue s \<and> visited (snd (write_json w jp md s)) = visited s"
  by (simp add: write_json_def split: io_outcome.split)

lemma write_pdf_frontier:
  "queue (snd (write_pdf w r fp s)) = queue s \<and> visited (snd (write_pdf w r fp s)) = visited s"
  by (simp add: write_pdf_def split: io_outcome.split option.split)

lemma save_pdf_try_frontier:
  "queue (snd (save_pdf_try w url r s)) = queue s \<and>
   visited (snd (save_pdf_try w url r s)) = visited s"
proof -
  have wp: "queue s1 = queue s \<and> visited s1 = visited s" if "write_pdf w r fp s = (x, s1)" for fp x s1
    using write_pdf_frontier[of w r fp s] that by simp
  have wj: "queue s3 = queue s2 \<and> visited s3 = visited s2"
    if "write_json w jp md s2 = (x, s3)" for jp md s2 x s3
    using write_json_frontier[of w jp md s2] that by simp
  show ?thesis
    unfolding save_pdf_try_def Let_def
    by (auto simp: emit_def split: sum.split prod.split option.split dest!: wp wj)
qed

lemma save_pdf_frontier:
  "queue (save_pdf w url r s) = queue s \<and> visited (save_pdf w url r s) = visited s"
  using save_pdf_try_frontier[of w url r s]
  by (cases "save_pdf_try w url r s"; cases "fst (save_pdf_try w url r s)")
     (auto simp: save_pdf_def emit_def)

text \<open>The append of lines 169 to 171.\<close>

lemma enqueue_cases:
  assumes "enqueue w u s = Inr s1"
  shows "s1 = s \<or> (u \<notin> visited s \<and> u \<notin> set (queue s) \<and> s1 = s\<lparr>queue := queue s @ [u]\<rparr>)"
  using assms by (auto simp: enqueue_def split: sum.splits if_splits)

lemma enqueue_inv:
  assumes "enqueue w u s = Inr s1" and "frontier_inv s"
  shows "frontier_inv s1 \<and> visited s1 = visited s"
  using enqueue_cases[OF assms(1)] assms(2) by (auto simp: frontier_inv_def)

lemma enqueue_visited:
  assumes "enqueue w u s = Inr s1" and "u \<in> visited s"
  shows "s1 = s"
  using enqueue_cases[OF assms(1)] assms(2) by auto

lemma enqueue_twice:
  assumes "enqueue w u s = Inr s1"
  shows "enqueue w u s1 = Inr s1"
  using assms by (auto simp: enqueue_def is_valid_url_def split: sum.splits if_splits)

lemma process_links_inv:
  "frontier_inv s \<Longrightarrow>
     frontier_inv (snd (process_links w url hrefs s)) \<and>
     visited (snd (process_links w url hrefs s)) = visited s"
proof (induction hrefs arbitrary: s)
  case Nil
  then show ?case by simp
next
  case (Cons href hrefs)
  show ?case
  proof (cases "normalize w url href")
    case (Inl e)
    with Cons.prems show ?thesis by simp
  next
    case (Inr full_url)
    show ?thesis
    proof (cases "enqueue w full_url s")
      case (Inl e)
      with Inr Cons.prems show ?thesis by simp
    next
      case en: (Inr s1)
      have "frontier_inv s1 \<and> visited s1 = visited s"
        using enqueue_inv[OF en Cons.prems] .
      then show ?thesis
        using Cons.IH[of s1] Inr en by simp
    qed
  qed
qed

lemma visit_inv:
  assumes "frontier_inv s"
  shows "frontier_inv (snd (visit w url s)) \<and> visited (snd (visit w url s)) = visited s"
proof -
  obtain res s1 where g: "get_response w url s = (res, s1)"
    by (cases "get_response w url s")
  have f1: "queue s1 = queue s \<and> visited s1 = visited s"
    using get_response_frontier[of w url s] g by simp
  then have i1: "frontier_inv s1"
    using assms by (simp add: frontier_inv_def)
  show ?thesis
  proof (cases res)
    case (Inl e)
    then show ?thesis using g i1 f1 by (simp add: visit_def)
  next
    case (Inr ro)
    show ?thesis
    proof (cases ro)
      case None
      then show ?thesis using Inr g i1 f1 by (simp add: visit_def)
    next
      case (Some r)
      show ?thesis
      proof (cases "classify url r")
        case PDF
        then show ?thesis
          using Some Inr g f1 i1 save_pdf_frontier[of w url r s1]
          by (simp add: visit_def frontier_inv_def)
      next
        case HTML
        show ?thesis
        proof (cases "content r")
          case None
          then show ?thesis using HTML Some Inr g i1 f1 by (simp add: visit_def)
        next
          case (Some html)
          have "frontier_inv (snd (process_links w url (find_hrefs w html) s1)) \<and>
                visited (snd (process_links w url (find_hrefs w html) s1)) = visited s1"
            using process_links_inv[OF i1] .
          then show ?thesis
            using HTML Some \<open>ro = Some r\<close> Inr g f1
            by (cases "process_links w url (find_hrefs w html) s1";
                cases "fst (process_links w url (find_hrefs w html) s1)")
               (auto simp: visit_def)
        qed
      next
        case Other
        then show ?thesis
          using Some Inr g f1 i1 by (simp add: visit_def frontier_inv_def emit_def)
      qed
    qed
  qed
qed

lemma frontier_inv_frame:
  "queue s' = queue s \<Longrightarrow> visited s' = visited s \<Longrightarrow> frontier_inv s' = frontier_inv s"
  by (simp add: frontier_inv_def)

lemma crawl_iter_inv:
  assumes "frontier_inv s"
  shows "frontier_inv (crawl_iter w s)"
proof (cases "queue s")
  case Nil
  then show ?thesis using assms by (simp add: crawl_iter_def)
next
  case (Cons url rest)
  have nv: "url \<notin> visited s" and nr: "url \<notin> set rest" and dr: "distinct rest"
    and dj: "set rest \<inter> visited s = {}"
    using assms Cons by (auto simp: frontier_inv_def)
  define s1 where "s1 = emit (Sleep 1)
                         ((emit (Log INFO (Visiting url)) (s\<lparr>queue := rest\<rparr>))
                            \<lparr>visited := insert url (visited s),
                             pages_visited := pages_visited s + 1\<rparr>)"
  have i1: "frontier_inv s1"
    using nr dr dj by (auto simp: s1_def frontier_inv_def emit_def)
  have iv: "frontier_inv (snd (visit w url s1))"
    using visit_inv[OF i1] by simp
  have step: "crawl_iter w s =
     (case visit w url s1 of
        (Continue, s2) \<Rightarrow> s2
      | (Done, s2) \<Rightarrow> progress s2
      | (Raised e, s2) \<Rightarrow> progress (emit (Log ERROR (Error_processing url e)) s2))"
    using Cons nv by (simp add: crawl_iter_def s1_def Let_def)
  obtain fl s2 where v: "visit w url s1 = (fl, s2)"
    by (cases "visit w url s1")
  have i2: "frontier_inv s2"
    using iv v by simp
  show ?thesis
    unfolding step v using i2
    by (cases fl) (simp_all add: progress_def emit_def frontier_inv_def)
qed

lemma crawl_steps_inv: "frontier_inv s \<Longrightarrow> frontier_inv (crawl_steps w n s)"
  by (induction n arbitrary: s) (simp_all add: crawl_iter_inv)

lemma crawl_loop_inv_aux:
  assumes "crawl_loop w s = Some s'"
  shows "frontier_inv s \<longrightarrow> frontier_inv s' \<and> (uncaught s' = None \<longrightarrow> queue s' = [])"
proof (rule crawl_loop.raw_induct[where P = "\<lambda>w s s'. frontier_inv s \<longrightarrow>
           frontier_inv s' \<and> (uncaught s' = None \<longrightarrow> queue s' = [])", OF _ assms])
  fix f w s s'
  assume ih: "\<And>w s s'. f w s = Some s' \<Longrightarrow>
           frontier_inv s \<longrightarrow> frontier_inv s' \<and> (uncaught s' = None \<longrightarrow> queue s' = [])"
    and eq: "(if queue s = [] then Some s
              else if uncaught s = None then f w (crawl_iter w s) else Some s) = Some s'"
  show "frontier_inv s \<longrightarrow> frontier_inv s' \<and> (uncaught s' = None \<longrightarrow> queue s' = [])"
  proof (cases "queue s = [] \<or> uncaught s \<noteq> None")
    case True
    with eq have "s' = s" by (auto split: if_splits)
    with True show ?thesis by auto
  next
    case False
    with eq have "f w (crawl_iter w s) = Some s'" by simp
    then show ?thesis
      using ih crawl_iter_inv[of s w] by blast
  qed
qed

lemma crawl_loop_inv:
  assumes "crawl_loop w s = Some s'" and "frontier_inv s"
  shows "frontier_inv s'"
  using crawl_loop_inv_aux[OF assms(1)] assms(2) by simp
section \<open>The end-to-end scenario\<close>

lemma site_requests:
  "requests_get site n ''https://mohfw.gov.in'' = Returns (html_response ''index'')"
  "requests_get site n ''https://mohfw.gov.in/report.pdf'' = Returns (pdf_response ''100000'')"
  "requests_get site n ''https://mohfw.gov.in/tiny.pdf'' = Returns (pdf_response ''1000'')"
  "find_hrefs site ''index'' = [''/report.pdf'', ''/tiny.pdf'', ''https://evil.example.com/x'']"
  by (simp_all add: site_def seed_url_def)

lemma normalize_site_links:
  "normalize w ''https://mohfw.gov.in'' ''/report.pdf'' = Inr ''https://mohfw.gov.in/report.pdf''"
  "normalize w ''https://mohfw.gov.in'' ''/tiny.pdf'' = Inr ''https://mohfw.gov.in/tiny.pdf''"
  "normalize w ''https://mohfw.gov.in'' ''https://evil.example.com/x'' =
     Inr ''https://evil.example.com/x''"
  by code_simp+

lemma urlparse_site_links:
  "urlparse ip6 ''https://mohfw.gov.in/report.pdf'' '''' =
     Inr \<lparr>scheme = ''https'', netloc = ''mohfw.gov.in'', path = ''/report.pdf'',
          query = '''', fragment = '''', params = ''''\<rparr>"
  "urlparse ip6 ''https://mohfw.gov.in/tiny.pdf'' '''' =
     Inr \<lparr>scheme = ''https'', netloc = ''mohfw.gov.in'', path = ''/tiny.pdf'',
          query = '''', fragment = '''', params = ''''\<rparr>"
  "urlparse ip6 ''https://evil.example.com/x'' '''' =
     Inr \<lparr>scheme = ''https'', netloc = ''evil.example.com'', path = ''/x'',
          query = '''', fragment = '''', params = ''''\<rparr>"
  by code_simp+

lemma suffix_site:
  "\<not> endswith (lower ''https://mohfw.gov.in'') ''.pdf''"
  "endswith (lower ''https://mohfw.gov.in/report.pdf'') ''.pdf''"
  "endswith (lower ''https://mohfw.gov.in/tiny.pdf'') ''.pdf''"
  by code_simp+

lemma derive_filename_site:
  "derive_filename now ''/report.pdf'' = ''report.pdf''"
  "derive_filename now ''/tiny.pdf'' = ''tiny.pdf''"
  by code_simp+

lemma path_join_report:
  "path_join ''data_dump/General_Medicine/MoHFW'' ''report.pdf'' =
     ''data_dump/General_Medicine/MoHFW/report.pdf''"
  by code_simp

lemma file_size_kb_100000: "file_size_kb 100000 = Inr 9766"
  by (simp add: file_size_kb_def float_overflow_def round53_def round_half_even_def)

lemma crawl_iter_site_1: "crawl_iter site (site_start t) = site_after_seed t"
  unfolding site_after_seed_def site_start_def
  by (simp add: crawl_iter_def init_def seed_url_def visit_def get_response_returns emit_def
        site_requests classify_def content_type_html contains_html suffix_site
        html_response_fields normalize_site_links enqueue_def is_valid_url_def
        urlparse_site_links endswith_domain site_fields progress_def float_overflow_def)

lemma crawl_iter_site_2: "crawl_iter site (site_after_seed t) = site_after_report t"
  unfolding site_after_report_def site_after_seed_def report_sidecar_def
  by (simp add: crawl_iter_def visit_def get_response_returns emit_def
        site_requests classify_pdf_response save_pdf_def save_pdf_try_def declared_length_def
        pdf_response_fields py_int_100000 pdf_min_size_def urlparse_site_links site_fields
        derive_filename_site download_dir_eq path_join_report write_pdf_def write_json_def
        file_size_kb_100000 progress_def float_overflow_def Let_def)

lemma crawl_iter_site_3: "crawl_iter site (site_after_report t) = site_after_tiny t"
  unfolding site_after_tiny_def site_after_report_def site_after_seed_def
  by (simp add: crawl_iter_def visit_def get_response_returns emit_def
        site_requests classify_pdf_response save_pdf_def save_pdf_try_def declared_length_def
        pdf_response_fields py_int_1000 pdf_min_size_def progress_def float_overflow_def Let_def)

lemma site_queues:
  "queue (site_start t) = [''https://mohfw.gov.in'']"
  "queue (site_after_seed t) =
     [''https://mohfw.gov.in/report.pdf'', ''https://mohfw.gov.in/tiny.pdf'']"
  "queue (site_after_report t) = [''https://mohfw.gov.in/tiny.pdf'']"
  "queue (site_after_tiny t) = []"
  by (simp_all add: site_start_def init_def seed_url_def site_after_seed_def
        site_after_report_def site_after_tiny_def)

lemma site_uncaught:
  "uncaught (site_start t) = None" "uncaught (site_after_seed t) = None"
  "uncaught (site_after_report t) = None" "uncaught (site_after_tiny t) = None"
  by (simp_all add: site_start_def init_def site_after_seed_def site_after_report_def
        site_after_tiny_def)

lemma crawl_loop_site: "crawl_loop site (site_start t) = Some (site_after_tiny t)"
proof -
  have "crawl_loop site (site_after_tiny t) = Some (site_after_tiny t)"
    by (subst crawl_loop.simps) (simp add: site_queues)
  then have "crawl_loop site (site_after_report t) = Some (site_after_tiny t)"
    by (subst crawl_loop.simps) (simp add: site_queues site_uncaught crawl_iter_site_3)
  then have "crawl_loop site (site_after_seed t) = Some (site_after_tiny t)"
    by (subst crawl_loop.simps) (simp add: site_queues site_uncaught crawl_iter_site_2)
  then show ?thesis
    by (subst crawl_loop.simps) (simp add: site_queues site_uncaught crawl_iter_site_1)
qed

lemma crawl_steps_site:
  "crawl_steps site n (site_start t) \<in>
     {site_start t, site_after_seed t, site_after_report t, site_after_tiny t}"
proof -
  have s3: "crawl_steps site k (site_after_tiny t) = site_after_tiny t" for k
    by (cases k) (simp_all add: site_queues)
  have s2: "crawl_steps site k (site_after_report t) \<in>
      {site_after_report t, site_after_tiny t}" for k
    by (cases k) (simp_all add: site_queues site_uncaught crawl_iter_site_3 s3)
  have s1: "crawl_steps site k (site_after_seed t) \<in>
      {site_after_seed t, site_after_report t, site_after_tiny t}" for k
    using s2 by (cases k) (auto simp: site_queues site_uncaught crawl_iter_site_2)
  show ?thesis
    using s1 by (cases n) (auto simp: site_queues site_uncaught crawl_iter_site_1)
qed

lemma site_start_init:
  "site_start [] = init Map.empty"
  "emit (Log INFO Starting_crawl) (init Map.empty) = site_start [Log INFO Starting_crawl]"
  by (simp_all add: site_start_def init_def emit_def)

text \<open>
  Claim C2, as amended. On the site of the scenario the crawl ends, after three
  iterations. Exactly one PDF file and one sidecar are on disk, \<open>pdfs_downloaded\<close> is 1
  and \<open>total_size_bytes\<close> is the declared 100000. \<open>pages_visited\<close> is 3, not 1: it counts
  every dequeued URL, the two PDF links included. The off-domain link is never in the
  queue and never visited.
\<close>

theorem crawl_site_end_to_end:
  "crawl site (init Map.empty) =
     Some (emit (Log INFO (Total_pdfs_downloaded 1))
            (emit (Log INFO (Total_pages_visited 3))
              (emit (Log INFO Crawl_complete) (site_after_tiny [Log INFO Starting_crawl])))) \<and>
   crawl_loop site (init Map.empty) = Some (site_after_tiny []) \<and>
   queue (site_after_tiny t) = [] \<and>
   dom (disk (site_after_tiny t)) =
     {''data_dump/General_Medicine/MoHFW/report.pdf'',
      ''data_dump/General_Medicine/MoHFW/report.pdf.json''} \<and>
   disk (site_after_tiny t) ''data_dump/General_Medicine/MoHFW/report.pdf'' =
     Some (Pdf ''%PDF-1.4'') \<and>
   disk (site_after_tiny t) ''data_dump/General_Medicine/MoHFW/report.pdf.json'' =
     Some (Sidecar report_sidecar) \<and>
   pdfs_downloaded (site_after_tiny t) = 1 \<and>
   total_size_bytes (site_after_tiny t) = 100000 \<and>
   pages_visited (site_after_tiny t) = 3 \<and>
   ''https://evil.example.com/x'' \<notin> set (queue (crawl_steps site n (init Map.empty))) \<and>
   ''https://evil.example.com/x'' \<notin> visited (crawl_steps site n (init Map.empty))"
proof -
  have c: "crawl site (init Map.empty) =
     Some (emit (Log INFO (Total_pdfs_downloaded 1))
            (emit (Log INFO (Total_pages_visited 3))
              (emit (Log INFO Crawl_complete) (site_after_tiny [Log INFO Starting_crawl]))))"
    by (simp add: crawl_def site_start_init crawl_loop_site site_uncaught)
       (simp add: site_after_tiny_def)
  have l: "crawl_loop site (init Map.empty) = Some (site_after_tiny [])"
    using crawl_loop_site[of "[]"] by (simp add: site_start_init)
  have d: "dom (disk (site_after_tiny t)) =
     {''data_dump/General_Medicine/MoHFW/report.pdf'',
      ''data_dump/General_Medicine/MoHFW/report.pdf.json''}"
    by (auto simp: site_after_tiny_def)
  have q: "''https://evil.example.com/x'' \<notin> set (queue (crawl_steps site n (init Map.empty))) \<and>
   ''https://evil.example.com/x'' \<notin> visited (crawl_steps site n (init Map.empty))"
    using crawl_steps_site[of n "[]"] unfolding site_start_init
    by (auto simp: init_def seed_url_def site_after_seed_def site_after_report_def
          site_after_tiny_def)
  show ?thesis
    using c l d q by (simp add: site_after_tiny_def)
qed

theorem pages_visited_counterexample:
  "map_option pages_visited (crawl_loop site (init Map.empty)) = Some 3 \<and>
   map_option pages_visited (crawl site (init Map.empty)) = Some 3 \<and>
   map_option pages_visited (crawl site (init Map.empty)) \<noteq> Some 1"
proof -
  have "crawl_loop site (init Map.empty) = Some (site_after_tiny [])"
    using crawl_loop_site[of "[]"] by (simp add: site_start_init)
  moreover have "crawl site (init Map.empty) =
     Some (emit (Log INFO (Total_pdfs_downloaded 1))
            (emit (Log INFO (Total_pages_visited 3))
              (emit (Log INFO Crawl_complete) (site_after_tiny [Log INFO Starting_crawl]))))"
    by (simp add: crawl_def site_start_init crawl_loop_site site_uncaught)
       (simp add: site_after_tiny_def)
  ultimately show ?thesis
    by (simp add: site_after_tiny_def emit_def)
qed

section \<open>The frontier invariant of the crawl\<close>

lemma distinct_count_le_1: "distinct xs \<Longrightarrow> count_list xs x \<le> 1"
  by (induction xs) (auto simp: count_list_0_iff)

text \<open>
  Claim C1. The queue never holds a URL twice and never holds a visited URL: this holds
  in the initial state, is kept by the \<open>popleft\<close>, by every append of the link loop and
  by every whole iteration, so it holds after any number of iterations and when the
  crawl ends. An append happens only after the checks against \<open>visited\<close> and the queue:
  a second enqueue of the same URL changes nothing, the URL is in the queue at most
  once, and a visited URL is not appended.
\<close>

theorem frontier_invariant:
  "frontier_inv (init d) \<and>
   frontier_inv (crawl_steps w n (init d)) \<and>
   (crawl_loop w (init d) = Some s' \<longrightarrow> frontier_inv s') \<and>
   (frontier_inv s \<longrightarrow>
      frontier_inv (s\<lparr>queue := tl (queue s)\<rparr>) \<and>
      frontier_inv (crawl_iter w s) \<and>
      frontier_inv (snd (process_links w url hrefs s)) \<and>
      (enqueue w u s = Inr s1 \<longrightarrow>
         frontier_inv s1 \<and> enqueue w u s1 = Inr s1 \<and> count_list (queue s1) u \<le> 1 \<and>
         (u \<in> visited s \<longrightarrow> s1 = s)))"
proof (intro conjI impI)
  show i0: "frontier_inv (init d)"
    by (simp add: frontier_inv_def init_def)
  show "frontier_inv (crawl_steps w n (init d))"
    using i0 by (rule crawl_steps_inv)
  show "frontier_inv s'" if "crawl_loop w (init d) = Some s'"
    using crawl_loop_inv[OF that i0] by simp
next
  assume i: "frontier_inv s"
  show "frontier_inv (s\<lparr>queue := tl (queue s)\<rparr>)"
    using i by (cases "queue s") (auto simp: frontier_inv_def)
  show "frontier_inv (crawl_iter w s)"
    using i by (rule crawl_iter_inv)
  show "frontier_inv (snd (process_links w url hrefs s))"
    using process_links_inv[OF i] by simp
  assume e: "enqueue w u s = Inr s1"
  show i1: "frontier_inv s1"
    using enqueue_inv[OF e i] by simp
  show "enqueue w u s1 = Inr s1"
    using e by (rule enqueue_twice)
  show "count_list (queue s1) u \<le> 1"
    using i1 distinct_count_le_1[of "queue s1" u] by (simp add: frontier_inv_def)
  show "s1 = s" if "u \<in> visited s"
    using enqueue_visited[OF e that] .
qed

lemma enqueue_site_report:
  "enqueue site ''https://mohfw.gov.in/report.pdf'' (init Map.empty) =
     Inr ((init Map.empty)\<lparr>queue := [''https://mohfw.gov.in'', ''https://mohfw.gov.in/report.pdf'']\<rparr>)"
  by (simp add: enqueue_def is_valid_url_def urlparse_site_links endswith_domain init_def
        seed_url_def site_fields)

lemma urlparse_seed:
  "urlparse ip6 ''https://mohfw.gov.in'' '''' =
     Inr \<lparr>scheme = ''https'', netloc = ''mohfw.gov.in'', path = '''',
          query = '''', fragment = '''', params = ''''\<rparr>"
  by code_simp

lemma enqueue_site_seed:
  "enqueue site ''https://mohfw.gov.in'' (site_after_seed []) = Inr (site_after_seed [])"
  by (simp add: enqueue_def is_valid_url_def urlparse_seed site_fields site_after_seed_def)

theorem frontier_invariant_witness:
  "frontier_inv (init Map.empty) \<and>
   frontier_inv (site_after_tiny []) \<and>
   frontier_inv (site_after_seed []) \<and>
   frontier_inv ((init Map.empty)\<lparr>queue := [''https://mohfw.gov.in'', ''https://mohfw.gov.in/report.pdf'']\<rparr>) \<and>
   count_list [''https://mohfw.gov.in'', ''https://mohfw.gov.in/report.pdf'']
     ''https://mohfw.gov.in/report.pdf'' \<le> 1 \<and>
   ''https://mohfw.gov.in'' \<in> visited (site_after_seed []) \<and>
   enqueue site ''https://mohfw.gov.in'' (site_after_seed []) = Inr (site_after_seed [])"
  using frontier_invariant[where d = Map.empty and w = site and n = 1
          and s' = "site_after_tiny []" and s = "init Map.empty"
          and u = "''https://mohfw.gov.in/report.pdf''" and url = "''https://mohfw.gov.in''"
          and hrefs = "[]"
          and ?s1.0 = "(init Map.empty)\<lparr>queue := [''https://mohfw.gov.in'', ''https://mohfw.gov.in/report.pdf'']\<rparr>"]
        frontier_invariant[where d = Map.empty and w = site and n = 1
          and s' = "site_after_tiny []" and s = "site_after_seed []"
          and u = "''https://mohfw.gov.in''" and url = "''https://mohfw.gov.in''"
          and hrefs = "[]" and ?s1.0 = "site_after_seed []"]
        crawl_loop_site[of "[]"] crawl_iter_site_1[of "[]"]
  by (simp add: site_start_init enqueue_site_report enqueue_site_seed)
     (simp add: site_after_seed_def)

section \<open>Fragments\<close>

lemma takeWhile_stop: "\<not> P y \<Longrightarrow> takeWhile P (xs @ y # ys) = takeWhile P xs"
  by (induction xs) auto

lemma dropWhile_stop: "\<not> P y \<Longrightarrow> dropWhile P (xs @ y # ys) = dropWhile P xs @ y # ys"
  by (induction xs) auto

lemma hash_plain:
  "\<not> c0_or_space CHR ''#''" "\<not> unsafe_byte CHR ''#''" "CHR ''#'' \<notin> set scheme_chars"
  "netloc_delim CHR ''#''"
  by (simp_all add: c0_or_space_def unsafe_byte_def scheme_chars_def ascii_lowercase_def
        ascii_uppercase_def digits_def netloc_delim_def)

lemma lstrip_c0_hash: "lstrip_c0 (u @ CHR ''#'' # f) = lstrip_c0 u @ CHR ''#'' # f"
  by (simp add: lstrip_c0_def dropWhile_stop hash_plain)

lemma remove_unsafe_hash:
  "remove_unsafe (a @ CHR ''#'' # f) = remove_unsafe a @ CHR ''#'' # remove_unsafe f"
  by (simp add: remove_unsafe_def hash_plain)

lemma before_in: "c \<in> set xs \<Longrightarrow> before c (xs @ ys) = before c xs"
  by (simp add: before_def takeWhile_append1)

lemma before_hash: "before CHR ''#'' (v @ CHR ''#'' # f) = before CHR ''#'' v"
  by (simp add: before_def takeWhile_stop)

lemma before_absent: "c \<notin> set xs \<Longrightarrow> before c xs = xs"
  by (auto simp: before_def)

lemma before_length: "c \<in> set xs \<Longrightarrow> length (before c xs) < length xs"
  unfolding before_def
  by (induction xs) auto

lemma after_in: "c \<in> set xs \<Longrightarrow> after c (xs @ ys) = after c xs @ ys"
  using before_length[of c xs] by (simp add: after_def before_in)

text \<open>The scheme is found before any fragment.\<close>

lemma split_scheme_hash:
  "split_scheme d (u @ CHR ''#'' # f) =
     (fst (split_scheme d u), snd (split_scheme d u) @ CHR ''#'' # f)"
proof (cases "CHR '':'' \<in> set u")
  case True
  then have ne: "u \<noteq> []"
    by auto
  have b: "before CHR '':'' (u @ CHR ''#'' # f) = before CHR '':'' u"
    using True by (rule before_in)
  have a: "after CHR '':'' (u @ CHR ''#'' # f) = after CHR '':'' u @ CHR ''#'' # f"
    using True by (rule after_in)
  show ?thesis
    using True ne by (simp add: split_scheme_def Let_def b a)
next
  case False
  have "takeWhile (\<lambda>x. x \<noteq> CHR '':'') (u @ CHR ''#'' # f) =
        u @ takeWhile (\<lambda>x. x \<noteq> CHR '':'') (CHR ''#'' # f)"
    using False by (intro takeWhile_append2) auto
  then have "CHR ''#'' \<in> set (before CHR '':'' (u @ CHR ''#'' # f))"
    by (simp add: before_def)
  then have "\<not> (\<forall>c \<in> set (before CHR '':'' (u @ CHR ''#'' # f)). c \<in> set scheme_chars)"
    using hash_plain(3) by blast
  then have c1: "\<not> (CHR '':'' \<in> set (u @ CHR ''#'' # f) \<and>
        before CHR '':'' (u @ CHR ''#'' # f) \<noteq> [] \<and> ascii_isalpha (hd (u @ CHR ''#'' # f)) \<and>
        (\<forall>c \<in> set (before CHR '':'' (u @ CHR ''#'' # f)). c \<in> set scheme_chars))"
    by blast
  have c2: "\<not> (CHR '':'' \<in> set u \<and> before CHR '':'' u \<noteq> [] \<and> ascii_isalpha (hd u) \<and>
        (\<forall>c \<in> set (before CHR '':'' u). c \<in> set scheme_chars))"
    using False by blast
  show ?thesis
    unfolding split_scheme_def Let_def
    by (simp only: c1 c2 if_False fst_conv snd_conv)
qed

lemma take2_hash: "(take 2 (r @ CHR ''#'' # f) = ''//'') = (take 2 r = ''//'')"
proof (cases r)
  case Nil
  then show ?thesis by simp
next
  case (Cons a r')
  then show ?thesis by (cases r') simp_all
qed

lemma splitnetloc_hash:
  assumes "take 2 r = ''//''"
  shows "splitnetloc (r @ CHR ''#'' # f) = (fst (splitnetloc r), snd (splitnetloc r) @ CHR ''#'' # f)"
proof -
  have "2 \<le> length r"
    using assms by (cases r; cases "tl r") auto
  then have "drop 2 (r @ CHR ''#'' # f) = drop 2 r @ CHR ''#'' # f"
    by simp
  then show ?thesis
    by (simp add: splitnetloc_def takeWhile_stop dropWhile_stop hash_plain)
qed

text \<open>\<open>urlsplit\<close>, with the part of the URL before the fragment named.\<close>

lemma urlsplit_parts:
  "urlsplit ip6 url0 scheme0 =
     (let sr = split_scheme (remove_unsafe (strip_c0 scheme0)) (remove_unsafe (lstrip_c0 url0));
          nr = (if take 2 (snd sr) = ''//'' then splitnetloc (snd sr) else ([], snd sr));
          w = before CHR ''#'' (snd nr)
      in if \<not> netloc_brackets_ok ip6 (fst nr) then Inl ValueError
         else Inr \<lparr>scheme = fst sr, netloc = fst nr,
                   path = (if CHR ''?'' \<in> set w then before CHR ''?'' w else w),
                   query = (if CHR ''?'' \<in> set w then after CHR ''?'' w else []),
                   fragment = (if CHR ''#'' \<in> set (snd nr) then after CHR ''#'' (snd nr) else [])\<rparr>)"
  by (simp add: urlsplit_def Let_def case_prod_beta before_absent)

lemma netloc_step_hash:
  "(if take 2 (r @ CHR ''#'' # f) = ''//'' then splitnetloc (r @ CHR ''#'' # f)
    else ([], r @ CHR ''#'' # f)) =
   (fst (if take 2 r = ''//'' then splitnetloc r else ([], r)),
    snd (if take 2 r = ''//'' then splitnetloc r else ([], r)) @ CHR ''#'' # f)"
proof (cases "take 2 r = ''//''")
  case True
  have "take 2 (r @ CHR ''#'' # f) = ''//''"
    by (simp only: take2_hash True)
  then show ?thesis
    by (simp only: True splitnetloc_hash[OF True] if_True fst_conv snd_conv simp_thms)
next
  case False
  have "take 2 (r @ CHR ''#'' # f) \<noteq> ''//''"
    by (simp only: take2_hash False not_False_eq_True)
  then show ?thesis
    by (simp only: False if_False fst_conv snd_conv)
qed

lemma urlsplit_hash:
  "map_sum id (\<lambda>r. r\<lparr>fragment := []\<rparr>) (urlsplit ip6 (u @ CHR ''#'' # f) d) =
   map_sum id (\<lambda>r. r\<lparr>fragment := []\<rparr>) (urlsplit ip6 u d)"
proof -
  have s: "split_scheme d' (remove_unsafe (lstrip_c0 (u @ CHR ''#'' # f))) =
           (fst (split_scheme d' (remove_unsafe (lstrip_c0 u))),
            snd (split_scheme d' (remove_unsafe (lstrip_c0 u))) @ CHR ''#'' # remove_unsafe f)" for d'
    by (simp add: lstrip_c0_hash remove_unsafe_hash split_scheme_hash)
  show ?thesis
    unfolding urlsplit_parts Let_def s fst_conv snd_conv netloc_step_hash before_hash
    by simp
qed

text \<open>\<open>urlparse\<close> takes the parameters from the path, whatever the fragment is.\<close>

lemma urlparse_of_split:
  "urlparse ip6 url d =
     map_sum id
       (\<lambda>r. \<lparr>scheme = scheme r, netloc = netloc r,
             path = fst (if scheme r \<in> set uses_params \<and> CHR '';'' \<in> set (path r)
                         then splitparams (path r) else (path r, [])),
             query = query r, fragment = fragment r,
             params = snd (if scheme r \<in> set uses_params \<and> CHR '';'' \<in> set (path r)
                           then splitparams (path r) else (path r, []))\<rparr>)
       (urlsplit ip6 url d)"
  by (simp add: urlparse_def case_prod_beta split: sum.split)

lemma split_result_same:
  assumes "r1\<lparr>fragment := []\<rparr> = r2\<lparr>fragment := []\<rparr>"
  shows "scheme r1 = scheme r2 \<and> netloc r1 = netloc r2 \<and> path r1 = path r2 \<and>
         query r1 = query r2"
proof -
  have "scheme (r1\<lparr>fragment := []\<rparr>) = scheme (r2\<lparr>fragment := []\<rparr>)"
       "netloc (r1\<lparr>fragment := []\<rparr>) = netloc (r2\<lparr>fragment := []\<rparr>)"
       "path (r1\<lparr>fragment := []\<rparr>) = path (r2\<lparr>fragment := []\<rparr>)"
       "query (r1\<lparr>fragment := []\<rparr>) = query (r2\<lparr>fragment := []\<rparr>)"
    by (simp_all only: assms)
  then show ?thesis
    by simp
qed

lemma urlparse_hash:
  "map_sum id (\<lambda>p. p\<lparr>fragment := []\<rparr>) (urlparse ip6 (u @ CHR ''#'' # f) d) =
   map_sum id (\<lambda>p. p\<lparr>fragment := []\<rparr>) (urlparse ip6 u d)"
proof (cases "urlsplit ip6 u d")
  case (Inl e)
  then have "urlsplit ip6 (u @ CHR ''#'' # f) d = Inl e"
    using urlsplit_hash[of ip6 u f d] by (cases "urlsplit ip6 (u @ CHR ''#'' # f) d") simp_all
  with Inl show ?thesis
    by (simp add: urlparse_def)
next
  case (Inr r2)
  then obtain r1 where r1: "urlsplit ip6 (u @ CHR ''#'' # f) d = Inr r1"
    and eq: "r1\<lparr>fragment := []\<rparr> = r2\<lparr>fragment := []\<rparr>"
    using urlsplit_hash[of ip6 u f d] by (cases "urlsplit ip6 (u @ CHR ''#'' # f) d") simp_all
  show ?thesis
    using split_result_same[OF eq] by (simp add: urlparse_of_split r1 Inr)
qed

lemma remove_fragment_alt:
  "remove_fragment ip6 url =
     map_sum id urlunparse (map_sum id (\<lambda>p. p\<lparr>fragment := []\<rparr>) (urlparse ip6 url []))"
  by (simp add: remove_fragment_def split: sum.split)

lemma remove_fragment_hash:
  "remove_fragment ip6 (x @ CHR ''#'' # f) = remove_fragment ip6 x"
  by (simp only: remove_fragment_alt urlparse_hash)

text \<open>\<open>urlunparse\<close> puts the fragment last, after a \<open>#\<close>.\<close>

lemma urlunsplit_fragment:
  "urlunsplit (r\<lparr>fragment := F\<rparr>) =
     (if F = [] then urlunsplit (r\<lparr>fragment := []\<rparr>)
      else urlunsplit (r\<lparr>fragment := []\<rparr>) @ CHR ''#'' # F)"
  unfolding urlunsplit_def Let_def
  by (cases "F = []") (simp_all split del: if_split cong del: if_weak_cong)

lemma urlunparse_fragment:
  "urlunparse (p\<lparr>fragment := F\<rparr>) =
     (if F = [] then urlunparse (p\<lparr>fragment := []\<rparr>)
      else urlunparse (p\<lparr>fragment := []\<rparr>) @ CHR ''#'' # F)"
proof -
  have u: "urlunparse (p\<lparr>fragment := G\<rparr>) =
        urlunsplit (\<lparr>scheme = scheme p, netloc = netloc p,
          path = (if params p \<noteq> [] then path p @ '';'' @ params p else path p),
          query = query p, fragment = []\<rparr>\<lparr>fragment := G\<rparr>)" for G
    by (simp add: urlunparse_def split del: if_split cong del: if_weak_cong)
  show ?thesis
    unfolding u by (rule urlunsplit_fragment)
qed

lemma remove_fragment_urlunparse:
  "remove_fragment ip6 (urlunparse (p\<lparr>fragment := F\<rparr>)) =
   remove_fragment ip6 (urlunparse (p\<lparr>fragment := []\<rparr>))"
proof (cases "F = []")
  case True
  then show ?thesis by simp
next
  case False
  have "urlunparse (p\<lparr>fragment := F\<rparr>) = urlunparse (p\<lparr>fragment := []\<rparr>) @ CHR ''#'' # F"
    using False by (simp only: urlunparse_fragment[where p = p and F = F] if_False)
  then show ?thesis
    by (simp only: remove_fragment_hash)
qed

text \<open>\<open>urljoin\<close> passes the fragment of the reference on and reads nothing from it.\<close>

lemma remove_fragment_record:
  "remove_fragment ip6 (urlunparse \<lparr>scheme = s, netloc = n, path = a, query = q,
      fragment = F1, params = c\<rparr>) =
   remove_fragment ip6 (urlunparse \<lparr>scheme = s, netloc = n, path = a, query = q,
      fragment = F2, params = c\<rparr>)"
  using remove_fragment_urlunparse[where ?ip6.0 = ip6 and F = F1
          and p = "\<lparr>scheme = s, netloc = n, path = a, query = q, fragment = [], params = c\<rparr>"]
        remove_fragment_urlunparse[where ?ip6.0 = ip6 and F = F2
          and p = "\<lparr>scheme = s, netloc = n, path = a, query = q, fragment = [], params = c\<rparr>"]
  by simp

lemma join_parsed_fragment:
  assumes urls: "remove_fragment ip6 url1 = remove_fragment ip6 url2"
  shows "remove_fragment ip6 (join_parsed b (p\<lparr>fragment := F\<rparr>) url1) =
         remove_fragment ip6 (join_parsed b p url2)"
proof (cases p)
  case (fields s n a q g c)
  show ?thesis
    unfolding join_parsed_def Let_def fields
    using urls by (auto intro: remove_fragment_record)
qed

lemma parse_result_same:
  assumes "p1\<lparr>fragment := []\<rparr> = p2\<lparr>fragment := []\<rparr>"
  shows "p1 = p2\<lparr>fragment := fragment p1\<rparr>"
proof -
  have "(p1\<lparr>fragment := []\<rparr>)\<lparr>fragment := fragment p1\<rparr> =
        (p2\<lparr>fragment := []\<rparr>)\<lparr>fragment := fragment p1\<rparr>"
    by (simp only: assms)
  then show ?thesis
    by simp
qed

text \<open>A link with a fragment and the same link without it give the same frontier entry.\<close>

lemma normalize_hash:
  assumes "u \<noteq> []"
  shows "normalize w url (u @ CHR ''#'' # f) = normalize w url u"
proof (cases "url = []")
  case True
  then show ?thesis
    by (simp add: normalize_def urljoin_def remove_fragment_hash)
next
  case base: False
  show ?thesis
  proof (cases "urlparse (ip_address6 w) url []")
    case (Inl e)
    then show ?thesis
      using base assms by (simp add: normalize_def urljoin_def)
  next
    case (Inr b)
    show ?thesis
    proof (cases "urlparse (ip_address6 w) u (scheme b)")
      case (Inl e)
      then have "urlparse (ip_address6 w) (u @ CHR ''#'' # f) (scheme b) = Inl e"
        using urlparse_hash[of "ip_address6 w" u f "scheme b"]
        by (cases "urlparse (ip_address6 w) (u @ CHR ''#'' # f) (scheme b)") simp_all
      with Inl Inr show ?thesis
        using base assms by (simp add: normalize_def urljoin_def)
    next
      case p2: (Inr p2)
      then obtain p1 where p1: "urlparse (ip_address6 w) (u @ CHR ''#'' # f) (scheme b) = Inr p1"
        and eq: "p1\<lparr>fragment := []\<rparr> = p2\<lparr>fragment := []\<rparr>"
        using urlparse_hash[of "ip_address6 w" u f "scheme b"]
        by (cases "urlparse (ip_address6 w) (u @ CHR ''#'' # f) (scheme b)") simp_all
      have p1': "p1 = p2\<lparr>fragment := fragment p1\<rparr>"
        using eq by (rule parse_result_same)
      have "remove_fragment (ip_address6 w) (join_parsed b p1 (u @ CHR ''#'' # f)) =
            remove_fragment (ip_address6 w) (join_parsed b p2 u)"
        by (subst p1') (rule join_parsed_fragment, rule remove_fragment_hash)
      then show ?thesis
        using base assms by (simp add: normalize_def urljoin_def Inr p1 p2)
    qed
  qed
qed

lemma process_links_same_twice:
  assumes "normalize w url h1 = normalize w url h2"
  shows "process_links w url [h1, h2] s = process_links w url [h2] s"
proof (cases "normalize w url h2")
  case (Inl e)
  then show ?thesis using assms by simp
next
  case (Inr x)
  show ?thesis
  proof (cases "enqueue w x s")
    case (Inl e)
    then show ?thesis using assms Inr by simp
  next
    case e: (Inr s1)
    have "enqueue w x s1 = Inr s1"
      using e by (rule enqueue_twice)
    then show ?thesis using assms Inr e by simp
  qed
qed

lemma process_links_single_length:
  "length (queue (snd (process_links w url [h] s))) \<le> length (queue s) + 1"
proof (cases "normalize w url h")
  case (Inl e)
  then show ?thesis by simp
next
  case (Inr x)
  show ?thesis
  proof (cases "enqueue w x s")
    case (Inl e)
    then show ?thesis using Inr by simp
  next
    case e: (Inr s1)
    then show ?thesis using Inr enqueue_cases[OF e] by auto
  qed
qed

lemma normalize_mohfw_a:
  "normalize w ''https://mohfw.gov.in'' ''https://mohfw.gov.in/a#sec2'' = Inr ''https://mohfw.gov.in/a''"
  "normalize w ''https://mohfw.gov.in'' ''https://mohfw.gov.in/a'' = Inr ''https://mohfw.gov.in/a''"
  by code_simp+

text \<open>
  Claim C9. For every page URL, every non-empty link \<open>u\<close> and every fragment \<open>f\<close>, the
  links \<open>u#f\<close> and \<open>u\<close> are normalized to the same string (or fail in the same way), so
  processing both, in either order, does what processing \<open>u\<close> alone does and adds at
  most one entry to the queue. \<open>https://mohfw.gov.in/a#sec2\<close> and \<open>https://mohfw.gov.in/a\<close>
  both give \<open>https://mohfw.gov.in/a\<close>.
\<close>

theorem fragment_normalization:
  "(u \<noteq> [] \<longrightarrow>
      normalize w url (u @ ''#'' @ f) = normalize w url u \<and>
      process_links w url [u @ ''#'' @ f, u] s = process_links w url [u] s \<and>
      process_links w url [u, u @ ''#'' @ f] s = process_links w url [u] s \<and>
      length (queue (snd (process_links w url [u @ ''#'' @ f, u] s))) \<le> length (queue s) + 1 \<and>
      length (queue (snd (process_links w url [u, u @ ''#'' @ f] s))) \<le> length (queue s) + 1) \<and>
   normalize w ''https://mohfw.gov.in'' ''https://mohfw.gov.in/a#sec2'' =
     Inr ''https://mohfw.gov.in/a'' \<and>
   normalize w ''https://mohfw.gov.in'' ''https://mohfw.gov.in/a'' =
     Inr ''https://mohfw.gov.in/a''"
proof (intro conjI impI)
  assume ne: "u \<noteq> []"
  show n: "normalize w url (u @ ''#'' @ f) = normalize w url u"
    using normalize_hash[OF ne, of w url f] by simp
  show a: "process_links w url [u @ ''#'' @ f, u] s = process_links w url [u] s"
    using n by (rule process_links_same_twice)
  have b': "process_links w url [u, u @ ''#'' @ f] s = process_links w url [u @ ''#'' @ f] s"
    using n[symmetric] by (rule process_links_same_twice)
  have "process_links w url [u @ ''#'' @ f] s = process_links w url [u] s"
    using n by simp
  with b' show b: "process_links w url [u, u @ ''#'' @ f] s = process_links w url [u] s"
    by simp
  show "length (queue (snd (process_links w url [u @ ''#'' @ f, u] s))) \<le> length (queue s) + 1"
    unfolding a by (rule process_links_single_length)
  show "length (queue (snd (process_links w url [u, u @ ''#'' @ f] s))) \<le> length (queue s) + 1"
    unfolding b by (rule process_links_single_length)
qed (rule normalize_mohfw_a)+

lemma urlparse_mohfw_a:
  "urlparse ip6 ''https://mohfw.gov.in/a'' [] =
     Inr \<lparr>scheme = ''https'', netloc = ''mohfw.gov.in'', path = ''/a'',
          query = [], fragment = [], params = []\<rparr>"
  by code_simp

theorem fragment_normalization_witness:
  "normalize site ''https://mohfw.gov.in'' (''https://mohfw.gov.in/a'' @ ''#'' @ ''sec2'') =
     Inr ''https://mohfw.gov.in/a'' \<and>
   process_links site ''https://mohfw.gov.in''
       [''https://mohfw.gov.in/a'' @ ''#'' @ ''sec2'', ''https://mohfw.gov.in/a''] (init Map.empty) =
     (None, (init Map.empty)\<lparr>queue := [''https://mohfw.gov.in'', ''https://mohfw.gov.in/a'']\<rparr>) \<and>
   process_links site ''https://mohfw.gov.in''
       [''https://mohfw.gov.in/a'', ''https://mohfw.gov.in/a'' @ ''#'' @ ''sec2''] (init Map.empty) =
     (None, (init Map.empty)\<lparr>queue := [''https://mohfw.gov.in'', ''https://mohfw.gov.in/a'']\<rparr>)"
proof -
  have one: "process_links site ''https://mohfw.gov.in'' [''https://mohfw.gov.in/a''] (init Map.empty) =
     (None, (init Map.empty)\<lparr>queue := [''https://mohfw.gov.in'', ''https://mohfw.gov.in/a'']\<rparr>)"
    by (simp add: normalize_mohfw_a enqueue_def is_valid_url_def urlparse_mohfw_a
          endswith_domain init_def seed_url_def)
  have ne: "''https://mohfw.gov.in/a'' \<noteq> []"
    by simp
  show ?thesis
    using fragment_normalization[where u = "''https://mohfw.gov.in/a''" and f = "''sec2''"
            and w = site and url = "''https://mohfw.gov.in''" and s = "init Map.empty"]
    by (simp only: ne one normalize_mohfw_a(2) not_False_eq_True simp_thms)
qed

section \<open>crawl: the progress report\<close>

text \<open>
  The progress report of line 179 is outside the \<open>try\<close> of the loop body. When the seed
  URL serves a PDF declaring \<open>10 ^ 320\<close> bytes, \<open>save_pdf\<close> writes and counts the PDF and
  logs the \<open>OverflowError\<close> of the sidecar's size; the report then divides the total,
  and its \<open>OverflowError\<close> leaves \<open>crawl\<close>: no progress line and no closing log line is
  written.
\<close>

lemma huge_site_fields:
  "requests_get huge_site n url = Returns (pdf_response huge_length)"
  "ip_address6 huge_site = (\<lambda>h. False)" "file_write huge_site = (\<lambda>n p. Written)"
  "time_time huge_site = (\<lambda>n. 7)" "strftime huge_site = (\<lambda>n. ''2026-11-03'')"
  by (simp_all add: huge_site_def site_def)

lemma derive_filename_seed: "derive_filename 7 [] = ''document_7.pdf''"
  by code_simp

lemma path_join_document:
  "path_join ''data_dump/General_Medicine/MoHFW'' ''document_7.pdf'' =
     ''data_dump/General_Medicine/MoHFW/document_7.pdf''"
  by code_simp

lemma crawl_iter_huge_site:
  "crawl_iter huge_site (emit (Log INFO Starting_crawl) (init Map.empty)) = huge_site_end"
  unfolding huge_site_end_def
  by (simp add: crawl_iter_def init_def seed_url_def visit_def get_response_returns emit_def
        huge_site_fields classify_pdf_response save_pdf_def save_pdf_try_def
        declared_length_def pdf_response_fields py_int_huge pdf_min_size_def urlparse_seed
        derive_filename_seed download_dir_eq path_join_document write_pdf_def
        file_size_kb_def progress_def float_overflow_def Let_def)

lemma crawl_progress_overflow:
  "crawl huge_site (init Map.empty) = Some huge_site_end"
proof -
  have q: "queue (emit (Log INFO Starting_crawl) (init Map.empty)) \<noteq> []"
    "uncaught (emit (Log INFO Starting_crawl) (init Map.empty)) = None"
    by (simp_all add: emit_def init_def seed_url_def)
  have e: "queue huge_site_end = []" "uncaught huge_site_end = Some OverflowError"
    by (simp_all add: huge_site_end_def)
  have "crawl_loop huge_site huge_site_end = Some huge_site_end"
    by (subst crawl_loop.simps) (simp add: e)
  then have "crawl_loop huge_site (emit (Log INFO Starting_crawl) (init Map.empty)) =
      Some huge_site_end"
    by (subst crawl_loop.simps) (simp add: q crawl_iter_huge_site)
  then show ?thesis
    by (simp add: crawl_def e)
qed

end
